theory Spec2Isabelle
  imports Main "HOL-Library.Sublist"
begin

section \<open>Seeding tracker issues from a spreadsheet: a model of seed\_issues\_from\_excel.py\<close>

text \<open>
  The script reads rows of a spreadsheet and, for each row, ensures labels, looks an issue up
  by its seed label and creates it when absent. Everything it does is a conversation with a
  remote tracker, so the model threads a world through every function: the tracker's own
  state (of any type \<open>'w\<close>, answered by a parameter \<open>srv\<close>) and the trace of what the script
  did (requests with their answers, sleeps, the report it wrote). Python exceptions are
  values of type \<open>exn\<close>; a function that can raise returns \<open>exn + 'a\<close>.
\<close>

subsection \<open>Python strings\<close>

text \<open>
  A Python string is kept as the list of the bytes of its UTF-8 encoding, so a character
  beyond ASCII is two or three bytes.
\<close>

fun startswith :: "string \<Rightarrow> string \<Rightarrow> bool" where
  "startswith s [] = True"
| "startswith [] (p # ps) = False"
| "startswith (c # cs) (p # ps) = (c = p \<and> startswith cs ps)"

definition endswith :: "string \<Rightarrow> string \<Rightarrow> bool" where
  "endswith s suf = startswith (rev s) (rev suf)"

text \<open>
  The characters that \<open>str.strip()\<close> takes for whitespace, by their encodings: the code
  points 9 to 13, 28 to 32, U+0085, U+00A0, U+1680, U+2000 to U+200A, U+2028, U+2029, U+202F,
  U+205F and U+3000.
\<close>

definition whitespace :: "string list" where
  "whitespace =
     [[CHR 0x09], [CHR 0x0A], [CHR 0x0B], [CHR 0x0C], [CHR 0x0D],
      [CHR 0x1C], [CHR 0x1D], [CHR 0x1E], [CHR 0x1F], [CHR 0x20],
      [CHR 0xC2, CHR 0x85], [CHR 0xC2, CHR 0xA0],
      [CHR 0xE1, CHR 0x9A, CHR 0x80],
      [CHR 0xE2, CHR 0x80, CHR 0x80], [CHR 0xE2, CHR 0x80, CHR 0x81],
      [CHR 0xE2, CHR 0x80, CHR 0x82], [CHR 0xE2, CHR 0x80, CHR 0x83],
      [CHR 0xE2, CHR 0x80, CHR 0x84], [CHR 0xE2, CHR 0x80, CHR 0x85],
      [CHR 0xE2, CHR 0x80, CHR 0x86], [CHR 0xE2, CHR 0x80, CHR 0x87],
      [CHR 0xE2, CHR 0x80, CHR 0x88], [CHR 0xE2, CHR 0x80, CHR 0x89],
      [CHR 0xE2, CHR 0x80, CHR 0x8A],
      [CHR 0xE2, CHR 0x80, CHR 0xA8], [CHR 0xE2, CHR 0x80, CHR 0xA9],
      [CHR 0xE2, CHR 0x80, CHR 0xAF],
      [CHR 0xE2, CHR 0x81, CHR 0x9F],
      [CHR 0xE3, CHR 0x80, CHR 0x80]]"

text \<open>
  \<open>strip_front pats s\<close> takes from the front of \<open>s\<close> every leading occurrence of one of
  \<open>pats\<close>. In UTF-8 the encoding of a character is neither the beginning nor the end of the
  encoding of another one, so with the encodings of the whitespace characters this takes
  whole characters off the string, from the left and, on the reversed bytes, from the right.
\<close>

function strip_front :: "string list \<Rightarrow> string \<Rightarrow> string" where
  "strip_front pats s =
     (case List.find (\<lambda>p. p \<noteq> [] \<and> startswith s p) pats of
        None \<Rightarrow> s
      | Some p \<Rightarrow> strip_front pats (drop (length p) s))"
  by pat_completeness auto
termination
proof (relation "measure (\<lambda>(pats, s). length s)")
  show "wf (measure (\<lambda>(pats, s). length s))" by simp
next
  fix pats :: "string list" and s p :: string
  have len: "startswith a b \<Longrightarrow> length b \<le> length a" for a b
    by (induction a b rule: startswith.induct) auto
  assume "List.find (\<lambda>p. p \<noteq> [] \<and> startswith s p) pats = Some p"
  then have "p \<noteq> []" and "startswith s p" by (auto simp: find_Some_iff)
  then have "length p \<le> length s" and "p \<noteq> []" using len by auto
  then show "((pats, drop (length p) s), (pats, s)) \<in> measure (\<lambda>(pats, s). length s)"
    by (cases p) auto
qed

declare strip_front.simps [simp del]

definition lstrip :: "string \<Rightarrow> string" where
  "lstrip s = strip_front whitespace s"

definition rstrip :: "string \<Rightarrow> string" where
  "rstrip s = rev (strip_front (map rev whitespace) (rev s))"

definition strip :: "string \<Rightarrow> string" where
  "strip s = rstrip (lstrip s)"

text \<open>A string of whitespace characters only; the empty string is one.\<close>

definition whitespace_only :: "string \<Rightarrow> bool" where
  "whitespace_only s = (\<exists>ws. set ws \<subseteq> set whitespace \<and> s = concat ws)"

text \<open>
  \<open>str.lower()\<close>, as far as the script needs it: A..Z become a..z. The script lowers only the
  text it searches for "rate limit", and no character beyond ASCII lowers to text that
  would complete this phrase.
\<close>

definition lower_char :: "char \<Rightarrow> char" where
  "lower_char c = (let n = of_char c :: nat in if 65 \<le> n \<and> n \<le> 90 then char_of (n + 32) else c)"

definition lower :: "string \<Rightarrow> string" where
  "lower s = map lower_char s"

text \<open>\<open>contains sub s\<close> is Python's \<open>sub in s\<close> on strings.\<close>

fun contains :: "string \<Rightarrow> string \<Rightarrow> bool" where
  "contains sub [] = (sub = [])"
| "contains sub (c # cs) = (startswith (c # cs) sub \<or> contains sub cs)"

text \<open>\<open>str(n)\<close> for a natural number, as used in the message of an HTTP error.\<close>

function str_nat :: "nat \<Rightarrow> string" where
  "str_nat n = (if n < 10 then [char_of (48 + n)] else str_nat (n div 10) @ [char_of (48 + n mod 10)])"
  by pat_completeness auto
termination
  by (relation "measure id") auto

declare str_nat.simps [simp del]

subsection \<open>Requests, responses, exceptions\<close>

text \<open>
  The keyword arguments \<open>gh\<close> is called with: none, \<open>params=\<close> of the issue listing, or
  \<open>json=\<close> with a label or an issue payload. The label payload has its description only
  when one was given.
\<close>

datatype kwargs =
    NoKwargs
  | Params (p_state: string) (p_labels: string) (p_per_page: nat) (p_page: nat)
  | JsonLabel (l_name: string) (l_color: string) (l_description: "string option")
  | JsonIssue (i_title: string) (i_body: string) (i_labels: "string list")

record request =
  rq_method :: string
  rq_url :: string
  rq_headers :: "(string \<times> string) list"
  rq_timeout :: nat
  rq_kwargs :: kwargs

text \<open>
  An entry of the issue listing, or the created issue, as far as the script reads it: whether
  the key \<open>pull_request\<close> is present, the names of its labels (none when the key \<open>labels\<close>
  is absent), and \<open>html_url\<close> when present.
\<close>

record issue =
  pull_request :: bool
  labels :: "string list"
  html_url :: "string option"

text \<open>
  A response: \<open>json_list\<close> is \<open>r.json()\<close> of a body that is a JSON array (the listing),
  \<open>json_dict\<close> is \<open>r.json()\<close> of a body that is a JSON object (the created issue). Which of
  the two a successful answer has is fixed by the tracker's API for each endpoint; bodies
  of another shape are outside the model.
\<close>

record response =
  status_code :: nat
  reason :: string
  resp_url :: string
  resp_text :: string
  json_list :: "issue list"
  json_dict :: issue

datatype exn =
    HTTPError string response
  | RequestException string
  | KeyError string

text \<open>\<open>str(e)\<close>: the message; a KeyError prints its key in quotes.\<close>

fun str_exn :: "exn \<Rightarrow> string" where
  "str_exn (HTTPError msg r) = msg"
| "str_exn (RequestException msg) = msg"
| "str_exn (KeyError k) = [CHR 0x27] @ k @ [CHR 0x27]"

text \<open>
  What \<open>requests.request\<close> gives back: a response, or it raises (a timeout, a refused
  connection) with a message.
\<close>

type_synonym outcome = "string + response"

record report_row =
  status :: string
  row_number :: nat
  task :: string
  issue_url :: string
  row_reason :: string
  row_error :: string

datatype event =
    Http request outcome
  | Sleep nat
  | WriteCsv string "string list" "report_row list"

record 'w world =
  tracker :: 'w
  trace :: "event list"

type_synonym 'w server = "'w \<Rightarrow> request \<Rightarrow> outcome \<times> 'w"

definition GH_API :: string where
  "GH_API = ''https://api.github.com''"

text \<open>\<open>requests.request(method, url, headers=headers, timeout=30, **kwargs)\<close>.\<close>

definition requests_request ::
  "'w server \<Rightarrow> request \<Rightarrow> 'w world \<Rightarrow> (exn + response) \<times> 'w world" where
  "requests_request srv rq w =
     (case srv (tracker w) rq of
        (out, t') \<Rightarrow>
          (case out of Inl msg \<Rightarrow> Inl (RequestException msg) | Inr r \<Rightarrow> Inr r,
           w\<lparr>tracker := t', trace := trace w @ [Http rq out]\<rparr>))"

text \<open>\<open>time.sleep\<close>, in milliseconds.\<close>

definition sleep :: "nat \<Rightarrow> 'w world \<Rightarrow> 'w world" where
  "sleep ms w = w\<lparr>trace := trace w @ [Sleep ms]\<rparr>"

text \<open>
  \<open>Response.raise_for_status()\<close> of the requests library: it raises for a status from 400
  to 599, with a message made of the status, the reason and the URL.
\<close>

definition http_error_msg :: "response \<Rightarrow> string" where
  "http_error_msg r =
     str_nat (status_code r)
       @ (if status_code r < 500 then '' Client Error: '' else '' Server Error: '')
       @ reason r @ '' for url: '' @ resp_url r"

definition raise_for_status :: "response \<Rightarrow> exn + unit" where
  "raise_for_status r =
     (if 400 \<le> status_code r \<and> status_code r < 600
      then Inl (HTTPError (http_error_msg r) r) else Inr ())"

definition is_rate_limit :: "response \<Rightarrow> bool" where
  "is_rate_limit r = (status_code r = 403 \<and> contains ''rate limit'' (lower (resp_text r)))"

text \<open>The request \<open>gh\<close> sends, the same one at the retry.\<close>

definition gh_request :: "(string \<times> string) list \<Rightarrow> string \<Rightarrow> string \<Rightarrow> kwargs \<Rightarrow> request" where
  "gh_request headers method path kw =
     \<lparr>rq_method = method, rq_url = GH_API @ path, rq_headers = headers,
      rq_timeout = 30, rq_kwargs = kw\<rparr>"

definition gh ::
  "'w server \<Rightarrow> (string \<times> string) list \<Rightarrow> string \<Rightarrow> string \<Rightarrow> kwargs \<Rightarrow> 'w world
     \<Rightarrow> (exn + response) \<times> 'w world" where
  "gh srv headers method path kw w =
     (let rq = gh_request headers method path kw
      in case requests_request srv rq w of
           (Inl e, w1) \<Rightarrow> (Inl e, w1)
         | (Inr r, w1) \<Rightarrow>
             if is_rate_limit r then
               (case requests_request srv rq (sleep 5000 w1) of
                  (Inl e, w2) \<Rightarrow> (Inl e, w2)
                | (Inr r2, w2) \<Rightarrow>
                    (case raise_for_status r2 of Inl e \<Rightarrow> (Inl e, w2) | Inr _ \<Rightarrow> (Inr r2, w2)))
             else
               (case raise_for_status r of Inl e \<Rightarrow> (Inl e, w1) | Inr _ \<Rightarrow> (Inr r, w1)))"

text \<open>The paths the script calls, for the repository \<open>repo\<close>.\<close>

definition label_path :: "string \<Rightarrow> string \<Rightarrow> string" where
  "label_path repo name = ''/repos/'' @ repo @ ''/labels/'' @ name"

definition labels_path :: "string \<Rightarrow> string" where
  "labels_path repo = ''/repos/'' @ repo @ ''/labels''"

definition issues_path :: "string \<Rightarrow> string" where
  "issues_path repo = ''/repos/'' @ repo @ ''/issues''"

subsection \<open>Ensuring a label\<close>

definition label_payload :: "string \<Rightarrow> string \<Rightarrow> string option \<Rightarrow> kwargs" where
  "label_payload name color desc =
     JsonLabel name color (case desc of None \<Rightarrow> None | Some d \<Rightarrow> if d = [] then None else Some d)"

definition ensure_label ::
  "'w server \<Rightarrow> (string \<times> string) list \<Rightarrow> string \<Rightarrow> string \<Rightarrow> string \<Rightarrow> string option
     \<Rightarrow> 'w world \<Rightarrow> (exn + unit) \<times> 'w world" where
  "ensure_label srv headers repo name color desc w =
     (case gh srv headers ''GET'' (label_path repo name) NoKwargs w of
        (Inr _, w1) \<Rightarrow> (Inr (), w1)
      | (Inl (HTTPError msg r), w1) \<Rightarrow>
          if status_code r = 404 then
            (case gh srv headers ''POST'' (labels_path repo)
                    (label_payload name color desc) w1 of
               (Inl e, w2) \<Rightarrow> (Inl e, w2)
             | (Inr _, w2) \<Rightarrow> (Inr (), w2))
          else (Inl (HTTPError msg r), w1)
      | (Inl e, w1) \<Rightarrow> (Inl e, w1))"

subsection \<open>Looking an issue up by its seed label\<close>

text \<open>The \<open>for it in items\<close> loop: the first entry that is no pull request and has the label.\<close>

fun scan_items :: "string \<Rightarrow> issue list \<Rightarrow> issue option" where
  "scan_items label [] = None"
| "scan_items label (it # items) =
     (if \<not> pull_request it \<and> label \<in> set (labels it) then Some it
      else scan_items label items)"

definition per_page :: nat where
  "per_page = 50"

text \<open>
  The \<open>while True\<close> loop over the pages. It has no bound of its own: a tracker that keeps
  answering full pages without a match keeps it running, which is the value \<open>None\<close> here.
\<close>

partial_function (option) find_pages ::
  "'w server \<Rightarrow> (string \<times> string) list \<Rightarrow> string \<Rightarrow> string \<Rightarrow> nat \<Rightarrow> 'w world
     \<Rightarrow> ((exn + issue option) \<times> 'w world) option" where
  "find_pages srv headers repo label page w =
     (case gh srv headers ''GET'' (issues_path repo)
             (Params ''all'' label per_page page) w of
        (Inl e, w1) \<Rightarrow> Some (Inl e, w1)
      | (Inr r, w1) \<Rightarrow>
          (let items = json_list r in
           if items = [] then Some (Inr None, w1)
           else case scan_items label items of
                  Some it \<Rightarrow> Some (Inr (Some it), w1)
                | None \<Rightarrow>
                    if length items < per_page then Some (Inr None, w1)
                    else find_pages srv headers repo label (page + 1) w1))"

declare find_pages.simps [code]

definition find_issue_by_seed ::
  "'w server \<Rightarrow> (string \<times> string) list \<Rightarrow> string \<Rightarrow> string \<Rightarrow> 'w world
     \<Rightarrow> ((exn + issue option) \<times> 'w world) option" where
  "find_issue_by_seed srv headers repo seed_uid w =
     find_pages srv headers repo (''seed:'' @ seed_uid) 1 w"

subsection \<open>Rows of the spreadsheet\<close>

text \<open>
  A cell as the script observes it: a string, or another value (a number, a date) known by
  its truth value and by what \<open>str\<close> prints for it, or the missing value NaN. A row maps a
  column name to its cell; \<open>row.get(c)\<close> is \<open>None\<close> for a column the sheet does not have.
\<close>

datatype pyval = PStr string | POther bool string | PNaN

fun truthy :: "pyval \<Rightarrow> bool" where
  "truthy (PStr s) = (s \<noteq> [])"
| "truthy (POther b s) = b"
| "truthy PNaN = True"

fun py_str :: "pyval \<Rightarrow> string" where
  "py_str (PStr s) = s"
| "py_str (POther b s) = s"
| "py_str PNaN = ''nan''"

type_synonym row = "string \<Rightarrow> pyval option"

text \<open>\<open>str(row.get(c) or "")\<close>.\<close>

definition str_or_empty :: "pyval option \<Rightarrow> string" where
  "str_or_empty v = (case v of None \<Rightarrow> [] | Some x \<Rightarrow> if truthy x then py_str x else [])"

text \<open>\<open>str(row.get(c))\<close>.\<close>

definition str_get :: "pyval option \<Rightarrow> string" where
  "str_get v = (case v of None \<Rightarrow> ''None'' | Some x \<Rightarrow> py_str x)"

subsection \<open>The body of an issue\<close>

definition add :: "string \<Rightarrow> pyval option \<Rightarrow> string list \<Rightarrow> string list" where
  "add h v parts =
     (let s = (case v of None \<Rightarrow> [] | Some PNaN \<Rightarrow> [] | Some x \<Rightarrow> py_str x)
      in if strip s \<noteq> [] then parts @ [''**'' @ h @ '':** '' @ s] else parts)"

fun join :: "string \<Rightarrow> string list \<Rightarrow> string" where
  "join sep [] = []"
| "join sep [p] = p"
| "join sep (p # q # ps) = p @ sep @ join sep (q # ps)"

text \<open>The fields of the body, in the order of the calls of \<open>add\<close>; each heading is its column.\<close>

definition body_fields :: "string list" where
  "body_fields =
     [''Semana'', ''SQUAD'', ''Papel'', ''Id Aluno'', ''IA'', ''Tarefa'',
      ''Descri'' @ [CHR 0xC3, CHR 0xA7, CHR 0xC3, CHR 0xA3] @ ''o'',
      ''Entreg'' @ [CHR 0xC3, CHR 0xA1] @ ''veis'',
      ''Crit'' @ [CHR 0xC3, CHR 0xA9] @ ''rios de Aceite'',
      ''Arquivos Sugeridos'',
      ''Comando de Verifica'' @ [CHR 0xC3, CHR 0xA7, CHR 0xC3, CHR 0xA3] @ ''o'',
      ''Branch Sugerida'', ''Revisor'',
      ''Observa'' @ [CHR 0xC3, CHR 0xA7, CHR 0xC3, CHR 0xB5] @ ''es'']"

text \<open>The calls of \<open>add\<close>, one field after the other.\<close>

fun add_fields :: "row \<Rightarrow> string list \<Rightarrow> string list \<Rightarrow> string list" where
  "add_fields row [] parts = parts"
| "add_fields row (h # hs) parts = add_fields row hs (add h (row h) parts)"

definition build_body :: "row \<Rightarrow> string" where
  "build_body row =
     (let parts = add_fields row body_fields [];
          seed_uid = strip (case row ''Issue UID'' of None \<Rightarrow> [] | Some x \<Rightarrow> py_str x)
      in join [CHR 0x0A] (parts @ [[CHR 0x0A] @ ''<!-- seed_id:'' @ seed_uid @ '' -->'']))"

subsection \<open>One row\<close>

definition dyn_labels :: "row \<Rightarrow> string \<Rightarrow> (string \<times> string) list" where
  "dyn_labels row seed_uid =
     (let semana = strip (str_get (row ''Semana''));
          squad = strip (str_get (row ''SQUAD''));
          papel = strip (str_get (row ''Papel''));
          ia = strip (str_get (row ''IA''));
          aluno = strip (str_get (row ''Id Aluno''))
      in [(''Semana:'' @ semana, ''7289DA''),
          (''SQUAD:'' @ squad, ''99AAB5''),
          (''Papel:'' @ papel, ''FEE75C''),
          (''IA:'' @ ia, ''FAA61A''),
          (''IdAluno:'' @ aluno, ''57F287''),
          (''seed:'' @ seed_uid, ''99AAB5'')])"

text \<open>The test of the loop that ensures the labels: such a name is passed over.\<close>

definition skipped_name :: "string \<Rightarrow> bool" where
  "skipped_name name = (endswith name '':'' \<or> endswith name '':nan'' \<or> endswith name '':NaN'')"

fun ensure_dyn ::
  "'w server \<Rightarrow> (string \<times> string) list \<Rightarrow> string \<Rightarrow> (string \<times> string) list \<Rightarrow> 'w world
     \<Rightarrow> (exn + unit) \<times> 'w world" where
  "ensure_dyn srv headers repo [] w = (Inr (), w)"
| "ensure_dyn srv headers repo ((name, color) # dyn) w =
     (if skipped_name name then ensure_dyn srv headers repo dyn w
      else case ensure_label srv headers repo name color None w of
             (Inl e, w1) \<Rightarrow> (Inl e, w1)
           | (Inr _, w1) \<Rightarrow> ensure_dyn srv headers repo dyn w1)"

text \<open>The labels of the payload: \<open>[n for n,_ in dyn if not n.endswith(":")]\<close>.\<close>

definition payload_labels :: "(string \<times> string) list \<Rightarrow> string list" where
  "payload_labels dyn = filter (\<lambda>n. \<not> endswith n '':'') (map fst dyn)"

definition report ::
  "string \<Rightarrow> nat \<Rightarrow> string \<Rightarrow> string \<Rightarrow> string \<Rightarrow> string \<Rightarrow> report_row" where
  "report st n t u r e =
     \<lparr>status = st, row_number = n, task = t, issue_url = u, row_reason = r, row_error = e\<rparr>"

text \<open>
  The body of the loop over the rows, for the row of index \<open>idx\<close>. It gives the record to
  append to the report, or the exception that leaves the loop: only the call that creates
  the issue stands inside \<open>try\<close>. The issue that the lookup returns has the key \<open>labels\<close>,
  so \<open>if existing\<close> holds exactly when one was returned.
\<close>

definition process_row ::
  "'w server \<Rightarrow> (string \<times> string) list \<Rightarrow> string \<Rightarrow> bool \<Rightarrow> nat \<Rightarrow> row \<Rightarrow> 'w world
     \<Rightarrow> ((exn + report_row) \<times> 'w world) option" where
  "process_row srv headers repo dry_run idx row w =
     (let seed_uid = strip (str_or_empty (row ''Issue UID''));
          titulo = strip (str_or_empty (row ''Tarefa''))
      in if seed_uid = [] \<or> titulo = [] then
           Some (Inr (report ''skip'' (idx + 1) titulo [] ''missing uid/title'' []), w)
         else
           (let dyn = dyn_labels row seed_uid
            in case ensure_dyn srv headers repo dyn w of
                 (Inl e, w1) \<Rightarrow> Some (Inl e, w1)
               | (Inr _, w1) \<Rightarrow>
                   (case find_issue_by_seed srv headers repo seed_uid w1 of
                      None \<Rightarrow> None
                    | Some (Inl e, w2) \<Rightarrow> Some (Inl e, w2)
                    | Some (Inr (Some existing), w2) \<Rightarrow>
                        (case html_url existing of
                           None \<Rightarrow> Some (Inl (KeyError ''html_url''), w2)
                         | Some u \<Rightarrow>
                             Some (Inr (report ''exists'' (idx + 1) titulo u
                                         (''seed:'' @ seed_uid) []), w2))
                    | Some (Inr None, w2) \<Rightarrow>
                        (let body = build_body row;
                             payload = JsonIssue titulo body (payload_labels dyn)
                         in if dry_run then
                              Some (Inr (report ''dry-run'' (idx + 1) titulo [] [] []), w2)
                            else
                              (case gh srv headers ''POST'' (issues_path repo)
                                      payload w2 of
                                 (Inr r, w3) \<Rightarrow>
                                   Some (Inr (report ''created'' (idx + 1) titulo
                                               (case html_url (json_dict r) of
                                                  None \<Rightarrow> [] | Some u \<Rightarrow> u)
                                               (''seed:'' @ seed_uid) []),
                                         sleep 300 w3)
                               | (Inl e, w3) \<Rightarrow>
                                   Some (Inr (report ''error'' (idx + 1) titulo [] []
                                               (str_exn e)), w3))))))"

text \<open>The loop over the rows, from index \<open>idx\<close>, appending to \<open>report_rows\<close>.\<close>

fun run_rows ::
  "'w server \<Rightarrow> (string \<times> string) list \<Rightarrow> string \<Rightarrow> bool \<Rightarrow> nat \<Rightarrow> row list
     \<Rightarrow> report_row list \<Rightarrow> 'w world \<Rightarrow> ((exn + report_row list) \<times> 'w world) option" where
  "run_rows srv headers repo dry_run idx [] report_rows w = Some (Inr report_rows, w)"
| "run_rows srv headers repo dry_run idx (row # rows) report_rows w =
     (case process_row srv headers repo dry_run idx row w of
        None \<Rightarrow> None
      | Some (Inl e, w1) \<Rightarrow> Some (Inl e, w1)
      | Some (Inr rec, w1) \<Rightarrow>
          run_rows srv headers repo dry_run (idx + 1) rows (report_rows @ [rec]) w1)"

subsection \<open>The whole run\<close>

text \<open>
  A sheet as \<open>xl.parse\<close> reads it: its columns and its rows. The environment maps a variable
  to its value.
\<close>

record frame =
  columns :: "string list"
  frame_rows :: "row list"

type_synonym environ = "string \<Rightarrow> string option"

definition expected_columns :: "string list" where
  "expected_columns =
     [''Semana'', ''SQUAD'', ''Papel'', ''Tarefa'', ''IA'', ''Id Aluno'', ''Issue UID'',
      ''T'' @ [CHR 0xC3, CHR 0xAD] @ ''tulo do PR'']"

text \<open>The frames kept: a sheet without columns is passed over, the others get \<open>__sheet__\<close>.\<close>

fun read_frames :: "(string \<times> frame) list \<Rightarrow> frame list" where
  "read_frames [] = []"
| "read_frames ((s, df) # sheets) =
     (if columns df = [] then read_frames sheets
      else \<lparr>columns = columns df @ [''__sheet__''],
            frame_rows = map (\<lambda>row. row(''__sheet__'' \<mapsto> PStr s)) (frame_rows df)\<rparr>
           # read_frames sheets)"

text \<open>
  What the script leaves to pandas: \<open>pd.concat(frames, ignore_index=True)\<close> and
  \<open>df.fillna("")\<close>. How pandas retypes and fills the cells is not the script's code, so both
  are parameters of the run.
\<close>

record pandas =
  pd_concat :: "frame list \<Rightarrow> frame"
  pd_fillna :: "frame \<Rightarrow> frame"

text \<open>The loop that gives each expected column the script misses the value \<open>""\<close>.\<close>

definition add_missing_columns :: "frame \<Rightarrow> frame" where
  "add_missing_columns df =
     foldl (\<lambda>df c. if c \<in> set (columns df) then df
                    else \<lparr>columns = columns df @ [c],
                          frame_rows = map (\<lambda>row. row(c \<mapsto> PStr [])) (frame_rows df)\<rparr>)
           df expected_columns"

text \<open>The rows that the loop iterates over: those of \<open>df.fillna("")\<close>.\<close>

definition loop_rows :: "pandas \<Rightarrow> frame list \<Rightarrow> row list" where
  "loop_rows pd frames = frame_rows (pd_fillna pd (add_missing_columns (pd_concat pd frames)))"

definition base_labels :: "(string \<times> string \<times> string) list" where
  "base_labels =
     [(''Tipo:feature'', ''3BA55D'',
       ''Tarefas de implementa'' @ [CHR 0xC3, CHR 0xA7, CHR 0xC3, CHR 0xA3] @ ''o''),
      (''Tipo:bug'', ''ED4245'',
       ''Corre'' @ [CHR 0xC3, CHR 0xA7, CHR 0xC3, CHR 0xB5] @ ''es'')]"

fun ensure_base ::
  "'w server \<Rightarrow> (string \<times> string) list \<Rightarrow> string \<Rightarrow> (string \<times> string \<times> string) list
     \<Rightarrow> 'w world \<Rightarrow> (exn + unit) \<times> 'w world" where
  "ensure_base srv headers repo [] w = (Inr (), w)"
| "ensure_base srv headers repo ((name, color, desc) # ls) w =
     (case ensure_label srv headers repo name color (Some desc) w of
        (Inl e, w1) \<Rightarrow> (Inl e, w1)
      | (Inr _, w1) \<Rightarrow> ensure_base srv headers repo ls w1)"

definition csv_header :: "string list" where
  "csv_header = [''status'', ''row'', ''task'', ''issue'', ''reason'', ''error'']"

datatype result = SysExit nat | Raised exn | Returned

text \<open>
  The part of \<open>main\<close> after the spreadsheet is read: the base labels, the loop over the rows,
  the report. An exception that leaves the loop leaves \<open>main\<close>, and nothing is written.
\<close>

definition seed_rows ::
  "'w server \<Rightarrow> (string \<times> string) list \<Rightarrow> string \<Rightarrow> bool \<Rightarrow> row list \<Rightarrow> 'w world
     \<Rightarrow> (result \<times> 'w world) option" where
  "seed_rows srv headers repo dry_run rows w =
     (case ensure_base srv headers repo base_labels w of
        (Inl e, w1) \<Rightarrow> Some (Raised e, w1)
      | (Inr _, w1) \<Rightarrow>
          (case run_rows srv headers repo dry_run 0 rows [] w1 of
             None \<Rightarrow> None
           | Some (Inl e, w2) \<Rightarrow> Some (Raised e, w2)
           | Some (Inr report_rows, w2) \<Rightarrow>
               Some (Returned,
                     w2\<lparr>trace := trace w2 @ [WriteCsv ''seed-report.csv'' csv_header report_rows]\<rparr>)))"

definition get_token :: "environ \<Rightarrow> string option" where
  "get_token environ =
     (case environ ''GITHUB_TOKEN'' of
        None \<Rightarrow> environ ''GH_TOKEN''
      | Some t \<Rightarrow> if t = [] then environ ''GH_TOKEN'' else Some t)"

definition main ::
  "'w server \<Rightarrow> pandas \<Rightarrow> environ \<Rightarrow> (string \<times> frame) list \<Rightarrow> bool \<Rightarrow> 'w world
     \<Rightarrow> (result \<times> 'w world) option" where
  "main srv pd environ sheets dry_run w =
     (case (get_token environ, environ ''GITHUB_REPOSITORY'') of
        (Some token, Some repo) \<Rightarrow>
          if token = [] \<or> repo = [] then Some (SysExit 2, w)
          else
            (let headers = [(''Authorization'', ''Bearer '' @ token),
                            (''Accept'', ''application/vnd.github+json'')];
                 frames = read_frames sheets
             in if frames = [] then Some (SysExit 3, w)
                else seed_rows srv headers repo dry_run (loop_rows pd frames) w)
      | _ \<Rightarrow> Some (SysExit 2, w))"

subsection \<open>Observing a run\<close>

text \<open>A call that creates an issue: a POST to the path of the issues.\<close>

definition is_create_issue :: "event \<Rightarrow> bool" where
  "is_create_issue e =
     (case e of Http rq out \<Rightarrow> rq_method rq = ''POST'' \<and> endswith (rq_url rq) ''/issues''
      | _ \<Rightarrow> False)"

definition create_calls :: "'w world \<Rightarrow> event list" where
  "create_calls w = filter is_create_issue (trace w)"

text \<open>Every report the run wrote, in order.\<close>

fun reports_written :: "event list \<Rightarrow> report_row list list" where
  "reports_written [] = []"
| "reports_written (WriteCsv f h rows # es) = rows # reports_written es"
| "reports_written (e # es) = reports_written es"

text \<open>
  A tracker serves the pages \<open>pages\<close> of the listing for a label when, whatever its state,
  it answers the request for page \<open>p\<close> with a response that is no error and whose entries
  are \<open>pages p\<close>.
\<close>

definition serves_pages ::
  "'w server \<Rightarrow> (string \<times> string) list \<Rightarrow> string \<Rightarrow> string \<Rightarrow> (nat \<Rightarrow> issue list) \<Rightarrow> bool" where
  "serves_pages srv headers repo label pages =
     (\<forall>t p. \<exists>r t'.
        srv t (gh_request headers ''GET'' (issues_path repo) (Params ''all'' label per_page p))
          = (Inr r, t')
        \<and> status_code r < 400 \<and> json_list r = pages p)"

text \<open>A call that changes the tracker: any POST. The requests of a trace, in order.\<close>

definition is_mutating :: "event \<Rightarrow> bool" where
  "is_mutating e = (case e of Http rq out \<Rightarrow> rq_method rq = ''POST'' | _ \<Rightarrow> False)"

fun requests_of :: "event list \<Rightarrow> request list" where
  "requests_of [] = []"
| "requests_of (Http rq out # es) = rq # requests_of es"
| "requests_of (e # es) = requests_of es"

subsection \<open>Trackers and rows to run the script on\<close>

text \<open>
  A tracker that answers from a script, one answer per request whatever the request, and
  with an empty 200 once the script is used up.
\<close>

definition ok :: response where
  "ok = \<lparr>status_code = 200, reason = ''OK'', resp_url = [], resp_text = [], json_list = [],
          json_dict = \<lparr>pull_request = False, labels = [], html_url = None\<rparr>\<rparr>"

fun scripted :: "outcome list server" where
  "scripted [] rq = (Inr ok, [])"
| "scripted (out # outs) rq = (out, outs)"

definition rate_limited :: response where
  "rate_limited =
     ok\<lparr>status_code := 403, reason := ''Forbidden'', resp_text := ''API Rate Limit exceeded''\<rparr>"

definition not_found :: response where
  "not_found = ok\<lparr>status_code := 404, reason := ''Not Found''\<rparr>"

definition server_error :: response where
  "server_error = ok\<lparr>status_code := 500, reason := ''Internal Server Error''\<rparr>"

definition start :: "outcome list \<Rightarrow> outcome list world" where
  "start script = \<lparr>tracker = script, trace = []\<rparr>"

text \<open>The row of the scenario: seed id W1-01, task "Setup repo", week 1.\<close>

definition setup_row :: row where
  "setup_row =
     [''Issue UID'' \<mapsto> PStr ''W1-01'', ''Tarefa'' \<mapsto> PStr ''Setup repo'',
      ''Semana'' \<mapsto> POther True ''1'', ''SQUAD'' \<mapsto> PStr [], ''Papel'' \<mapsto> PStr [],
      ''IA'' \<mapsto> PStr [], ''Id Aluno'' \<mapsto> PStr []]"

text \<open>
  A tracker that serves given pages, an issue and a pull request that both carry the seed
  label, and a listing of two pages: fifty pull requests, then the pull request and the issue.
\<close>

definition page_of :: "request \<Rightarrow> nat" where
  "page_of rq = (case rq_kwargs rq of Params st l n p \<Rightarrow> p | _ \<Rightarrow> 0)"

definition paged :: "(nat \<Rightarrow> issue list) \<Rightarrow> unit server" where
  "paged pages t rq = (Inr (ok\<lparr>json_list := pages (page_of rq)\<rparr>), t)"

definition existing_issue :: issue where
  "existing_issue =
     \<lparr>pull_request = False, labels = [''seed:W1-01''],
      html_url = Some ''https://github.com/o/r/issues/7''\<rparr>"

definition pull_request_entry :: issue where
  "pull_request_entry =
     \<lparr>pull_request = True, labels = [''seed:W1-01''],
      html_url = Some ''https://github.com/o/r/pull/3''\<rparr>"

definition two_pages :: "nat \<Rightarrow> issue list" where
  "two_pages p = (if p = 1 then replicate 50 pull_request_entry
                  else if p = 2 then [pull_request_entry, existing_issue] else [])"

text \<open>
  An environment and a sheet for a whole run: the sheet has one row, without a title. Two
  more rows: one whose role cell reads " nan", and a second task.
\<close>

definition run_env :: environ where
  "run_env = [''GITHUB_TOKEN'' \<mapsto> ''t0ken'', ''GITHUB_REPOSITORY'' \<mapsto> ''o/r'']"

definition run_headers :: "(string \<times> string) list" where
  "run_headers = [(''Authorization'', ''Bearer t0ken''),
                  (''Accept'', ''application/vnd.github+json'')]"

definition untitled_sheet :: "(string \<times> frame) list" where
  "untitled_sheet =
     [(''Sheet1'', \<lparr>columns = [''Issue UID'', ''Tarefa''],
                   frame_rows = [[''Issue UID'' \<mapsto> PStr ''W1-02'', ''Tarefa'' \<mapsto> PNaN]]\<rparr>)]"

definition nan_row :: row where
  "nan_row = setup_row(''Papel'' \<mapsto> PStr '' nan'')"

definition second_row :: row where
  "second_row = setup_row(''Issue UID'' \<mapsto> PStr ''W1-02'', ''Tarefa'' \<mapsto> PStr ''Write README'')"

text \<open>Sheets with the row of the scenario, alone and followed by the second task.\<close>

definition task_columns :: "string list" where
  "task_columns = [''Issue UID'', ''Tarefa'', ''Semana'', ''SQUAD'', ''Papel'', ''IA'', ''Id Aluno'']"

definition one_task_sheet :: "(string \<times> frame) list" where
  "one_task_sheet = [(''Sheet1'', \<lparr>columns = task_columns, frame_rows = [setup_row]\<rparr>)]"

definition two_task_sheet :: "(string \<times> frame) list" where
  "two_task_sheet =
     [(''Sheet1'', \<lparr>columns = task_columns, frame_rows = [setup_row, second_row]\<rparr>)]"

text \<open>
  Pandas on frames whose cells it leaves as they are: the columns of all frames, NaN where a
  frame has no cell, and \<open>""\<close> for every NaN. It serves to run the script on the sheets here.
\<close>

definition plain_concat :: "frame list \<Rightarrow> frame" where
  "plain_concat frames =
     (let cols = remdups (concat (map columns frames))
      in \<lparr>columns = cols,
          frame_rows =
            map (\<lambda>row c. if c \<in> set cols
                           then (case row c of None \<Rightarrow> Some PNaN | Some v \<Rightarrow> Some v)
                           else None)
                (concat (map frame_rows frames))\<rparr>)"

definition plain_fillna :: "frame \<Rightarrow> frame" where
  "plain_fillna df =
     df\<lparr>frame_rows :=
          map (\<lambda>row c. case row c of Some PNaN \<Rightarrow> Some (PStr []) | v \<Rightarrow> v) (frame_rows df)\<rparr>"

definition plain_pandas :: pandas where
  "plain_pandas = \<lparr>pd_concat = plain_concat, pd_fillna = plain_fillna\<rparr>"

text \<open>
  A tracker that keeps labels and issues the way GitHub does, as far as the four calls of
  the script see it: a label is found when it exists; the listing gives the issues that have
  the asked label, page by page; a created issue has the labels of its payload, which come
  to exist with it.
\<close>

record github =
  gh_labels :: "string list"
  gh_issues :: "issue list"

definition github_server :: "string \<Rightarrow> github server" where
  "github_server repo t rq =
     (case rq_kwargs rq of
        NoKwargs \<Rightarrow>
          (if drop (length (GH_API @ ''/repos/'' @ repo @ ''/labels/'')) (rq_url rq)
                \<in> set (gh_labels t)
           then (Inr ok, t) else (Inr not_found, t))
      | JsonLabel name color desc \<Rightarrow>
          (Inr (ok\<lparr>status_code := 201, reason := ''Created''\<rparr>),
           t\<lparr>gh_labels := gh_labels t @ [name]\<rparr>)
      | Params st label n p \<Rightarrow>
          (Inr (ok\<lparr>json_list :=
                     take n (drop ((p - 1) * n)
                               (filter (\<lambda>i. label \<in> set (labels i)) (gh_issues t)))\<rparr>), t)
      | JsonIssue title body ls \<Rightarrow>
          (let i = \<lparr>pull_request = False, labels = ls,
                    html_url = Some (''https://github.com/'' @ repo @ ''/issues/''
                                      @ str_nat (Suc (length (gh_issues t))))\<rparr>
           in (Inr (ok\<lparr>status_code := 201, reason := ''Created'', json_dict := i\<rparr>),
               t\<lparr>gh_issues := gh_issues t @ [i],
                 gh_labels := gh_labels t @ filter (\<lambda>l. l \<notin> set (gh_labels t)) ls\<rparr>)))"

definition empty_tracker :: "github world" where
  "empty_tracker = \<lparr>tracker = \<lparr>gh_labels = [], gh_issues = []\<rparr>, trace = []\<rparr>"

text \<open>The world in which the next run starts: the tracker as the last run left it.\<close>

definition next_run :: "'w world \<Rightarrow> 'w world" where
  "next_run w = \<lparr>tracker = tracker w, trace = []\<rparr>"

text \<open>The row of the scenario with a seed id that ends in a colon, and its sheet.\<close>

definition colon_row :: row where
  "colon_row = setup_row(''Issue UID'' \<mapsto> PStr ''W1-01:'')"

definition colon_sheet :: "(string \<times> frame) list" where
  "colon_sheet = [(''Sheet1'', \<lparr>columns = task_columns, frame_rows = [colon_row]\<rparr>)]"

section \<open>Properties\<close>

subsection \<open>Strings and the scan of a page\<close>

lemma startswith_iff: "startswith s p \<longleftrightarrow> (\<exists>t. s = p @ t)"
  by (induction s p rule: startswith.induct) auto

lemma strip_front_Nil: "strip_front pats [] = []"
proof -
  have "List.find (\<lambda>p. p \<noteq> [] \<and> startswith [] p) pats = None"
    by (auto simp: find_None_iff startswith_iff)
  then show ?thesis by (subst strip_front.simps) simp
qed

text \<open>What \<open>strip_front\<close> takes off is a sequence of the patterns.\<close>

lemma strip_front_decomp:
  "\<exists>ps. set ps \<subseteq> set pats \<and> s = concat ps @ strip_front pats s"
proof (induction pats s rule: strip_front.induct)
  case (1 pats s)
  show ?case
  proof (cases "List.find (\<lambda>p. p \<noteq> [] \<and> startswith s p) pats")
    case None
    then have "strip_front pats s = s" by (subst strip_front.simps) simp
    then show ?thesis by (intro exI[of _ "[]"]) simp
  next
    case (Some p)
    then have p: "p \<in> set pats" "startswith s p" by (auto simp: find_Some_iff)
    then obtain t where s: "s = p @ t" by (auto simp: startswith_iff)
    have e: "strip_front pats s = strip_front pats (drop (length p) s)"
      using Some by (subst strip_front.simps) simp
    from 1[OF Some] obtain ps where
      "set ps \<subseteq> set pats" "drop (length p) s = concat ps @ strip_front pats (drop (length p) s)"
      by blast
    then have "set (p # ps) \<subseteq> set pats \<and> s = concat (p # ps) @ strip_front pats s"
      using p s e by auto
    then show ?thesis by blast
  qed
qed

text \<open>No whitespace character begins like another one: the one in front is the one found.\<close>

lemma find_whitespace:
  "w \<in> set whitespace \<Longrightarrow>
     List.find (\<lambda>p. p \<noteq> [] \<and> startswith (w @ t) p) whitespace = Some w"
  apply (simp only: whitespace_def list.set insert_iff empty_iff)
  apply (elim disjE)
  apply simp_all
  done

lemma lstrip_whitespace: "w \<in> set whitespace \<Longrightarrow> lstrip (w @ t) = lstrip t"
  unfolding lstrip_def
  by (subst strip_front.simps) (simp add: find_whitespace)

lemma whitespace_only_lstrip: "whitespace_only s \<Longrightarrow> lstrip s = []"
proof -
  have "set ws \<subseteq> set whitespace \<Longrightarrow> lstrip (concat ws) = []" for ws
  proof (induction ws)
    case Nil
    then show ?case by (simp add: lstrip_def strip_front_Nil)
  next
    case (Cons w ws)
    then show ?case by (simp add: lstrip_whitespace)
  qed
  then show "whitespace_only s \<Longrightarrow> lstrip s = []" by (auto simp: whitespace_only_def)
qed

lemma rstrip_empty: "rstrip t = [] \<Longrightarrow> whitespace_only t"
proof -
  assume "rstrip t = []"
  then have z: "strip_front (map rev whitespace) (rev t) = []" by (simp add: rstrip_def)
  from strip_front_decomp[of "map rev whitespace" "rev t"] obtain ps where
    ps: "set ps \<subseteq> set (map rev whitespace)" "rev t = concat ps" using z by auto
  then have "t = concat (map rev (rev ps))" by (metis rev_concat rev_rev_ident)
  moreover have "set (map rev (rev ps)) \<subseteq> set whitespace" using ps(1) by auto
  ultimately show ?thesis unfolding whitespace_only_def by blast
qed

text \<open>Stripping leaves nothing exactly of the strings made of whitespace characters.\<close>

lemma strip_empty_iff: "strip s = [] \<longleftrightarrow> whitespace_only s"
proof
  assume "strip s = []"
  then have "whitespace_only (lstrip s)" by (simp add: strip_def rstrip_empty)
  then obtain ws where ws: "set ws \<subseteq> set whitespace" "lstrip s = concat ws"
    by (auto simp: whitespace_only_def)
  from strip_front_decomp[of whitespace s] obtain ps where
    ps: "set ps \<subseteq> set whitespace" "s = concat ps @ lstrip s" by (auto simp: lstrip_def)
  have "set (ps @ ws) \<subseteq> set whitespace \<and> s = concat (ps @ ws)" using ws ps by simp
  then show "whitespace_only s" unfolding whitespace_only_def by blast
next
  assume "whitespace_only s"
  then show "strip s = []"
    by (simp add: strip_def whitespace_only_lstrip rstrip_def strip_front_Nil)
qed

lemma scan_items_Some:
  "scan_items label items = Some it \<Longrightarrow>
     \<not> pull_request it \<and> label \<in> set (labels it) \<and>
     (\<exists>pre post. items = pre @ it # post \<and> scan_items label pre = None)"
proof (induction items)
  case Nil
  then show ?case by simp
next
  case (Cons x items)
  show ?case
  proof (cases "\<not> pull_request x \<and> label \<in> set (labels x)")
    case True
    with Cons.prems have "x = it" by simp
    with True show ?thesis by (intro conjI exI[of _ "[]"] exI[of _ items]) auto
  next
    case False
    with Cons.prems have "scan_items label items = Some it" by auto
    from Cons.IH[OF this] obtain pre post where
      "\<not> pull_request it" "label \<in> set (labels it)" "items = pre @ it # post"
      "scan_items label pre = None"
      by blast
    with False show ?thesis by (intro conjI exI[of _ "x # pre"] exI[of _ post]) auto
  qed
qed

lemma scan_items_None:
  "scan_items label items = None \<longleftrightarrow>
     (\<forall>x\<in>set items. pull_request x \<or> label \<notin> set (labels x))"
  by (induction items) auto

lemma scan_items_append:
  "scan_items label (xs @ ys) =
     (case scan_items label xs of Some it \<Rightarrow> Some it | None \<Rightarrow> scan_items label ys)"
  by (induction xs) auto

subsection \<open>Which calls create an issue\<close>

lemma create_calls_request:
  "requests_request srv rq w = (res, w') \<Longrightarrow>
   rq_method rq \<noteq> ''POST'' \<or> \<not> endswith (rq_url rq) ''/issues'' \<Longrightarrow>
   create_calls w' = create_calls w"
  by (auto simp: create_calls_def requests_request_def is_create_issue_def split: prod.splits)

lemma create_calls_sleep: "create_calls (sleep n w) = create_calls w"
  by (simp add: create_calls_def sleep_def is_create_issue_def)

lemma create_calls_gh:
  assumes "gh srv headers method path kw w = (res, w')"
    and "method \<noteq> ''POST'' \<or> \<not> endswith (GH_API @ path) ''/issues''"
  shows "create_calls w' = create_calls w"
proof -
  let ?rq = "gh_request headers method path kw"
  have c: "rq_method ?rq \<noteq> ''POST'' \<or> \<not> endswith (rq_url ?rq) ''/issues''"
    using assms(2) by (simp add: gh_request_def)
  obtain r1 w1 where 1: "requests_request srv ?rq w = (r1, w1)" by fastforce
  obtain r2 w2 where 2: "requests_request srv ?rq (sleep 5000 w1) = (r2, w2)" by fastforce
  have e1: "create_calls w1 = create_calls w" using create_calls_request[OF 1 c] .
  have e2: "create_calls w2 = create_calls w"
    using create_calls_request[OF 2 c] e1 by (simp add: create_calls_sleep)
  from assms(1) have "w' = w1 \<or> w' = w2"
    unfolding gh_def Let_def 1 by (auto simp: 2 split: sum.splits if_splits)
  then show ?thesis using e1 e2 by auto
qed

lemma labels_not_issues: "\<not> endswith (GH_API @ labels_path repo) ''/issues''"
  by (simp add: endswith_def labels_path_def)

lemma create_calls_ensure_label:
  assumes "ensure_label srv headers repo name color desc w = (res, w')"
  shows "create_calls w' = create_calls w"
proof -
  let ?get = "gh srv headers ''GET'' (label_path repo name) NoKwargs w"
  obtain r1 w1 where 1: "?get = (r1, w1)" by fastforce
  let ?post = "gh srv headers ''POST'' (labels_path repo) (label_payload name color desc) w1"
  obtain r2 w2 where 2: "?post = (r2, w2)" by fastforce
  have e1: "create_calls w1 = create_calls w" using create_calls_gh[OF 1] by simp
  have e2: "create_calls w2 = create_calls w"
    using create_calls_gh[OF 2] labels_not_issues e1 by simp
  from assms have "w' = w1 \<or> w' = w2"
    unfolding ensure_label_def 1 by (auto simp: 2 split: sum.splits exn.splits if_splits)
  then show ?thesis using e1 e2 by auto
qed

lemma create_calls_ensure_dyn:
  "ensure_dyn srv headers repo dyn w = (res, w') \<Longrightarrow> create_calls w' = create_calls w"
proof (induction dyn arbitrary: w)
  case Nil
  then show ?case by simp
next
  case (Cons a dyn)
  obtain name color where a: "a = (name, color)" by (cases a)
  obtain r1 w1 where 1: "ensure_label srv headers repo name color None w = (r1, w1)"
    by fastforce
  have e1: "create_calls w1 = create_calls w" using create_calls_ensure_label[OF 1] .
  show ?case
  proof (cases "skipped_name name")
    case True
    then show ?thesis using Cons a by simp
  next
    case False
    then show ?thesis using Cons.prems Cons.IH[of w1] a 1 e1
      by (auto split: sum.splits)
  qed
qed

lemma create_calls_find_pages:
  fixes srv :: "'w server"
  assumes "find_pages srv headers repo label page w = Some y"
  shows "create_calls (snd y) = create_calls w"
proof (rule find_pages.raw_induct
    [where P = "\<lambda>srv headers repo label page w y. create_calls (snd y) = create_calls w",
     OF _ assms])
  fix f :: "'w server \<Rightarrow> (string \<times> string) list \<Rightarrow> string \<Rightarrow> string \<Rightarrow> nat \<Rightarrow> 'w world
     \<Rightarrow> ((exn + issue option) \<times> 'w world) option"
  fix srv :: "'w server" and headers repo label page and w :: "'w world" and y
  assume IH: "\<And>srv headers repo label page w y.
     f srv headers repo label page w = Some y \<Longrightarrow> create_calls (snd y) = create_calls w"
  let ?get = "gh srv headers ''GET'' (issues_path repo) (Params ''all'' label per_page page) w"
  assume body: "(case ?get of
        (Inl e, w1) \<Rightarrow> Some (Inl e, w1)
      | (Inr r, w1) \<Rightarrow>
          (let items = json_list r in
           if items = [] then Some (Inr None, w1)
           else case scan_items label items of
                  None \<Rightarrow>
                    if length items < per_page then Some (Inr None, w1)
                    else f srv headers repo label (page + 1) w1
                | Some it \<Rightarrow> Some (Inr (Some it), w1))) = Some y"
  obtain r1 w1 where g: "?get = (r1, w1)" by fastforce
  have e1: "create_calls w1 = create_calls w" using create_calls_gh[OF g] by simp
  from body have "snd y = w1 \<or> f srv headers repo label (page + 1) w1 = Some y"
    unfolding g by (auto simp: Let_def split: sum.splits if_splits option.splits)
  then show "create_calls (snd y) = create_calls w"
    using e1 IH[of srv headers repo label "page + 1" w1 y] by auto
qed

lemma find_pages_result:
  fixes srv :: "'w server"
  assumes "find_pages srv headers repo label page w = Some y"
  shows "\<forall>it. fst y = Inr (Some it) \<longrightarrow> \<not> pull_request it \<and> label \<in> set (labels it)"
proof (rule find_pages.raw_induct
    [where P = "\<lambda>srv headers repo label page w y.
       \<forall>it. fst y = Inr (Some it) \<longrightarrow> \<not> pull_request it \<and> label \<in> set (labels it)",
     OF _ assms])
  fix f :: "'w server \<Rightarrow> (string \<times> string) list \<Rightarrow> string \<Rightarrow> string \<Rightarrow> nat \<Rightarrow> 'w world
     \<Rightarrow> ((exn + issue option) \<times> 'w world) option"
  fix srv :: "'w server" and headers repo label page and w :: "'w world" and y
  assume IH: "\<And>srv headers repo label page w y.
     f srv headers repo label page w = Some y \<Longrightarrow>
       \<forall>it. fst y = Inr (Some it) \<longrightarrow> \<not> pull_request it \<and> label \<in> set (labels it)"
  let ?get = "gh srv headers ''GET'' (issues_path repo) (Params ''all'' label per_page page) w"
  assume body: "(case ?get of
        (Inl e, w1) \<Rightarrow> Some (Inl e, w1)
      | (Inr r, w1) \<Rightarrow>
          (let items = json_list r in
           if items = [] then Some (Inr None, w1)
           else case scan_items label items of
                  None \<Rightarrow>
                    if length items < per_page then Some (Inr None, w1)
                    else f srv headers repo label (page + 1) w1
                | Some it \<Rightarrow> Some (Inr (Some it), w1))) = Some y"
  obtain r1 w1 where g: "?get = (r1, w1)" by fastforce
  show "\<forall>it. fst y = Inr (Some it) \<longrightarrow> \<not> pull_request it \<and> label \<in> set (labels it)"
  proof (intro allI impI)
    fix it assume y: "fst y = Inr (Some it)"
    from body y have "(\<exists>items. scan_items label items = Some it)
        \<or> f srv headers repo label (page + 1) w1 = Some y"
      unfolding g by (auto simp: Let_def split: sum.splits if_splits option.splits)
    then show "\<not> pull_request it \<and> label \<in> set (labels it)"
    proof
      assume "\<exists>items. scan_items label items = Some it"
      then show ?thesis using scan_items_Some by blast
    next
      assume "f srv headers repo label (page + 1) w1 = Some y"
      from IH[OF this] y show ?thesis by blast
    qed
  qed
qed

subsection \<open>The client: one retry on a rate limit\<close>

text \<open>
  Claim C9. Whatever the call, when the tracker's first answer is a rate-limit response (a
  403 whose text mentions "rate limit"), \<open>gh\<close> sleeps five seconds and sends the same request
  exactly once more, and nothing else; the answer to the retry is final: when it is an
  error response (status 400 to 599, a second rate limit among them) \<open>gh\<close> raises the
  HTTPError of that response. When the first answer is any other error response, \<open>gh\<close>
  sends nothing more and raises its HTTPError.
\<close>

theorem gh_retries_rate_limit_once:
  fixes srv :: "'w server" and r1 :: response
  assumes "srv (tracker w) (gh_request headers meth path kw) = (Inr r1, t1)"
  shows "(is_rate_limit r1 \<longrightarrow>
           (\<exists>out2 t2. srv t1 (gh_request headers meth path kw) = (out2, t2) \<and>
              snd (gh srv headers meth path kw w) =
                w\<lparr>tracker := t2,
                  trace := trace w @ [Http (gh_request headers meth path kw) (Inr r1),
                                      Sleep 5000,
                                      Http (gh_request headers meth path kw) out2]\<rparr> \<and>
              (\<forall>r2 :: response.
                 out2 = Inr r2 \<and> 400 \<le> status_code r2 \<and> status_code r2 < 600 \<longrightarrow>
                 fst (gh srv headers meth path kw w) = Inl (HTTPError (http_error_msg r2) r2))))
       \<and> (\<not> is_rate_limit r1 \<and> 400 \<le> status_code r1 \<and> status_code r1 < 600 \<longrightarrow>
            gh srv headers meth path kw w =
              (Inl (HTTPError (http_error_msg r1) r1),
               w\<lparr>tracker := t1,
                 trace := trace w @ [Http (gh_request headers meth path kw) (Inr r1)]\<rparr>))"
  using assms
  by (auto simp: gh_def requests_request_def sleep_def raise_for_status_def Let_def
           split: prod.splits sum.splits)

theorem gh_retries_rate_limit_once_witness:
  "is_rate_limit rate_limited \<and>
   gh scripted [] ''GET'' ''/x'' NoKwargs (start [Inr rate_limited, Inr rate_limited]) =
     (Inl (HTTPError ''403 Client Error: Forbidden for url: '' rate_limited),
      \<lparr>tracker = [],
       trace = [Http (gh_request [] ''GET'' ''/x'' NoKwargs) (Inr rate_limited), Sleep 5000,
                Http (gh_request [] ''GET'' ''/x'' NoKwargs) (Inr rate_limited)]\<rparr>) \<and>
   \<not> is_rate_limit server_error \<and>
   gh scripted [] ''GET'' ''/x'' NoKwargs (start [Inr server_error, Inr ok]) =
     (Inl (HTTPError ''500 Server Error: Internal Server Error for url: '' server_error),
      \<lparr>tracker = [Inr ok],
       trace = [Http (gh_request [] ''GET'' ''/x'' NoKwargs) (Inr server_error)]\<rparr>)"
proof -
  have rl: "is_rate_limit rate_limited"
    by code_simp
  have st: "status_code rate_limited = 403" by (simp add: rate_limited_def ok_def)
  have msg: "http_error_msg rate_limited = ''403 Client Error: Forbidden for url: ''"
    by code_simp
  have s: "scripted (tracker (start [Inr rate_limited, Inr rate_limited]))
             (gh_request [] ''GET'' ''/x'' NoKwargs) = (Inr rate_limited, [Inr rate_limited])"
    by (simp add: start_def)
  from gh_retries_rate_limit_once
         [where srv = scripted and w = "start [Inr rate_limited, Inr rate_limited]"
            and headers = "[]" and meth = "''GET''" and path = "''/x''" and kw = NoKwargs
            and ?r1.0 = rate_limited and ?t1.0 = "[Inr rate_limited]", OF s]
       rl st msg
  have a: "gh scripted [] ''GET'' ''/x'' NoKwargs (start [Inr rate_limited, Inr rate_limited]) =
     (Inl (HTTPError ''403 Client Error: Forbidden for url: '' rate_limited),
      \<lparr>tracker = [],
       trace = [Http (gh_request [] ''GET'' ''/x'' NoKwargs) (Inr rate_limited), Sleep 5000,
                Http (gh_request [] ''GET'' ''/x'' NoKwargs) (Inr rate_limited)]\<rparr>)"
    by (auto simp: start_def intro: prod_eqI)
  have nrl: "\<not> is_rate_limit server_error"
    by (simp add: is_rate_limit_def server_error_def ok_def)
  have st5: "status_code server_error = 500" by (simp add: server_error_def ok_def)
  have msg5: "http_error_msg server_error
                = ''500 Server Error: Internal Server Error for url: ''"
    by code_simp
  have s5: "scripted (tracker (start [Inr server_error, Inr ok]))
             (gh_request [] ''GET'' ''/x'' NoKwargs) = (Inr server_error, [Inr ok])"
    by (simp add: start_def)
  from gh_retries_rate_limit_once
         [where srv = scripted and w = "start [Inr server_error, Inr ok]"
            and headers = "[]" and meth = "''GET''" and path = "''/x''" and kw = NoKwargs
            and ?r1.0 = server_error and ?t1.0 = "[Inr ok]", OF s5]
       nrl st5 msg5
  have b: "gh scripted [] ''GET'' ''/x'' NoKwargs (start [Inr server_error, Inr ok]) =
     (Inl (HTTPError ''500 Server Error: Internal Server Error for url: '' server_error),
      \<lparr>tracker = [Inr ok],
       trace = [Http (gh_request [] ''GET'' ''/x'' NoKwargs) (Inr server_error)]\<rparr>)"
    by (simp add: start_def)
  from rl a nrl b show ?thesis by simp
qed

subsection \<open>A row without seed id or title\<close>

text \<open>
  Claim C4. A row whose seed id or whose title is empty or made of whitespace characters
  only (those that \<open>str.strip()\<close> removes, the no-break space among them) gives the record
  with status \<open>skip\<close> and reason "missing uid/title", and the world is the one before the
  row: no call to the tracker was made for it. By \<open>strip_empty_iff\<close> these are all the rows
  that the test of the script takes.
\<close>

theorem blank_row_is_skipped:
  assumes "whitespace_only (str_or_empty (row ''Issue UID''))
         \<or> whitespace_only (str_or_empty (row ''Tarefa''))"
  shows "process_row srv headers repo dry_run idx row w =
           Some (Inr \<lparr>status = ''skip'', row_number = idx + 1,
                      task = strip (str_or_empty (row ''Tarefa'')), issue_url = [],
                      row_reason = ''missing uid/title'', row_error = []\<rparr>, w)"
  using assms by (auto simp: process_row_def report_def strip_empty_iff Let_def)

theorem blank_row_is_skipped_witness:
  "process_row scripted [] ''o/r'' False 4
       (setup_row(''Tarefa'' \<mapsto> PStr ([CHR 0xC2, CHR 0xA0] @ '' '')))
       (start [Inl ''down'']) =
     Some (Inr \<lparr>status = ''skip'', row_number = 5, task = [], issue_url = [],
                row_reason = ''missing uid/title'', row_error = []\<rparr>, start [Inl ''down''])"
proof -
  let ?row = "setup_row(''Tarefa'' \<mapsto> PStr ([CHR 0xC2, CHR 0xA0] @ '' ''))"
  have t: "str_or_empty (?row ''Tarefa'') = concat [[CHR 0xC2, CHR 0xA0], '' '']"
    by (simp add: str_or_empty_def)
  have "set [[CHR 0xC2, CHR 0xA0], '' ''] \<subseteq> set whitespace"
    by (simp add: whitespace_def)
  then have ws: "whitespace_only (str_or_empty (?row ''Tarefa''))"
    unfolding whitespace_only_def t by blast
  then have "strip (str_or_empty (?row ''Tarefa'')) = []" by (simp add: strip_empty_iff)
  with blank_row_is_skipped[of ?row scripted "[]" "''o/r''" False 4 "start [Inl ''down'']"] ws
  show ?thesis by simp
qed

subsection \<open>The seed lookup\<close>

lemma gh_serves_pages:
  fixes srv :: "'w server"
  assumes "serves_pages srv headers repo label pages"
  shows "\<exists>r w1. gh srv headers ''GET'' (issues_path repo) (Params ''all'' label per_page p) w = (Inr r, w1)
           \<and> json_list r = pages p \<and> length (trace w1) = Suc (length (trace w))"
proof -
  from assms obtain r t' where
    s: "srv (tracker w) (gh_request headers ''GET'' (issues_path repo) (Params ''all'' label per_page p)) = (Inr r, t')"
    and st: "status_code r < 400" and js: "json_list r = pages p"
    unfolding serves_pages_def by blast
  from st have nrl: "\<not> is_rate_limit r" by (simp add: is_rate_limit_def)
  from st have rs: "raise_for_status r = Inr ()" by (simp add: raise_for_status_def)
  have "gh srv headers ''GET'' (issues_path repo) (Params ''all'' label per_page p) w =
          (Inr r, w\<lparr>tracker := t', trace := trace w @ [Http (gh_request headers ''GET'' (issues_path repo) (Params ''all'' label per_page p)) (Inr r)]\<rparr>)"
    by (simp add: gh_def Let_def requests_request_def s nrl rs)
  with js show ?thesis by simp
qed

lemma find_pages_terminates:
  fixes srv :: "'w server"
  assumes sv: "serves_pages srv headers repo label pages"
    and short: "length (pages k) < per_page"
  shows "p \<le> k \<Longrightarrow>
     \<exists>n res w'. p \<le> n \<and> n \<le> k
       \<and> find_pages srv headers repo label p w = Some (Inr res, w')
       \<and> length (trace w') = length (trace w) + (Suc n - p)
       \<and> (\<forall>j. p \<le> j \<and> j < n \<longrightarrow> scan_items label (pages j) = None \<and> per_page \<le> length (pages j))
       \<and> res = scan_items label (pages n)
       \<and> (res = None \<longrightarrow> length (pages n) < per_page)"
proof (induction "k - p" arbitrary: p w)
  case 0
  then have pk: "p = k" by simp
  from gh_serves_pages[OF sv, of p w] obtain r w1 where
    g: "gh srv headers ''GET'' (issues_path repo) (Params ''all'' label per_page p) w = (Inr r, w1)"
    and js: "json_list r = pages p" and tr: "length (trace w1) = Suc (length (trace w))" by blast
  have sp: "length (pages p) < per_page" using short pk by simp
  have "find_pages srv headers repo label p w = Some (Inr (scan_items label (pages p)), w1)"
    using sp js
    by (subst find_pages.simps) (auto simp: g Let_def split: option.splits)
  then show ?case using pk tr sp by (intro exI[of _ p] exI[of _ "scan_items label (pages p)"] exI[of _ w1]) auto
next
  case (Suc d)
  then have lt: "p < k" by simp
  from gh_serves_pages[OF sv, of p w] obtain r w1 where
    g: "gh srv headers ''GET'' (issues_path repo) (Params ''all'' label per_page p) w = (Inr r, w1)"
    and js: "json_list r = pages p" and tr: "length (trace w1) = Suc (length (trace w))" by blast
  show ?case
  proof (cases "scan_items label (pages p) = None \<and> per_page \<le> length (pages p)")
    case False
    then have "find_pages srv headers repo label p w = Some (Inr (scan_items label (pages p)), w1)"
      using js by (subst find_pages.simps) (auto simp: g Let_def split: option.splits)
    then show ?thesis using lt tr False
      by (intro exI[of _ p] exI[of _ "scan_items label (pages p)"] exI[of _ w1]) auto
  next
    case True
    then have ne: "pages p \<noteq> []" by (auto simp: per_page_def)
    have step: "find_pages srv headers repo label p w = find_pages srv headers repo label (p + 1) w1"
      using True ne js by (subst find_pages.simps) (auto simp: g Let_def)
    have "d = k - (p + 1)" and "p + 1 \<le> k" using Suc.hyps(2) lt by auto
    from Suc.hyps(1)[OF this, of w1] obtain n res w' where
      n: "p + 1 \<le> n" "n \<le> k"
      and f: "find_pages srv headers repo label (p + 1) w1 = Some (Inr res, w')"
      and l: "length (trace w') = length (trace w1) + (Suc n - (p + 1))"
      and a: "\<forall>j. p + 1 \<le> j \<and> j < n \<longrightarrow> scan_items label (pages j) = None \<and> per_page \<le> length (pages j)"
      and r: "res = scan_items label (pages n)" "res = None \<longrightarrow> length (pages n) < per_page"
      by (elim exE conjE) (rule that)
    have a': "\<forall>j. p \<le> j \<and> j < n \<longrightarrow> scan_items label (pages j) = None \<and> per_page \<le> length (pages j)"
    proof (intro allI impI)
      fix j assume "p \<le> j \<and> j < n"
      then have "j = p \<or> (p + 1 \<le> j \<and> j < n)" by auto
      then show "scan_items label (pages j) = None \<and> per_page \<le> length (pages j)"
      proof
        assume "j = p"
        then show ?thesis using True by simp
      next
        assume "p + 1 \<le> j \<and> j < n"
        then show ?thesis using a by simp
      qed
    qed
    have l': "length (trace w') = length (trace w) + (Suc n - p)" using l tr n by simp
    have f': "find_pages srv headers repo label p w = Some (Inr res, w')"
      using step f by simp
    have pn: "p \<le> n" using n by simp
    show ?thesis
      using pn n(2) f' l' a' r by (intro exI[of _ n] exI[of _ res] exI[of _ w'] conjI)
  qed
qed


lemma find_pages_first:
  fixes srv :: "'w server"
  assumes "find_pages srv headers repo label page w = Some y"
  shows "serves_pages srv headers repo label pages \<longrightarrow>
     (\<forall>it. fst y = Inr (Some it) \<longrightarrow>
        (\<exists>k pre post. page \<le> k \<and> pages k = pre @ it # post \<and> scan_items label pre = None
           \<and> (\<forall>j. page \<le> j \<and> j < k \<longrightarrow> scan_items label (pages j) = None)))"
proof (rule find_pages.raw_induct
    [where P = "\<lambda>srv headers repo label page w y.
       serves_pages srv headers repo label pages \<longrightarrow>
       (\<forall>it. fst y = Inr (Some it) \<longrightarrow>
        (\<exists>k pre post. page \<le> k \<and> pages k = pre @ it # post \<and> scan_items label pre = None
           \<and> (\<forall>j. page \<le> j \<and> j < k \<longrightarrow> scan_items label (pages j) = None)))",
     OF _ assms])
  fix f :: "'w server \<Rightarrow> (string \<times> string) list \<Rightarrow> string \<Rightarrow> string \<Rightarrow> nat \<Rightarrow> 'w world
     \<Rightarrow> ((exn + issue option) \<times> 'w world) option"
  fix srv :: "'w server" and headers repo label page and w :: "'w world" and y
  assume IH: "\<And>srv headers repo label page w y.
     f srv headers repo label page w = Some y \<Longrightarrow>
       serves_pages srv headers repo label pages \<longrightarrow>
       (\<forall>it. fst y = Inr (Some it) \<longrightarrow>
        (\<exists>k pre post. page \<le> k \<and> pages k = pre @ it # post \<and> scan_items label pre = None
           \<and> (\<forall>j. page \<le> j \<and> j < k \<longrightarrow> scan_items label (pages j) = None)))"
  let ?get = "gh srv headers ''GET'' (issues_path repo) (Params ''all'' label per_page page) w"
  assume body: "(case ?get of
        (Inl e, w1) \<Rightarrow> Some (Inl e, w1)
      | (Inr r, w1) \<Rightarrow>
          (let items = json_list r in
           if items = [] then Some (Inr None, w1)
           else case scan_items label items of
                  None \<Rightarrow>
                    if length items < per_page then Some (Inr None, w1)
                    else f srv headers repo label (page + 1) w1
                | Some it \<Rightarrow> Some (Inr (Some it), w1))) = Some y"
  show "serves_pages srv headers repo label pages \<longrightarrow>
       (\<forall>it. fst y = Inr (Some it) \<longrightarrow>
        (\<exists>k pre post. page \<le> k \<and> pages k = pre @ it # post \<and> scan_items label pre = None
           \<and> (\<forall>j. page \<le> j \<and> j < k \<longrightarrow> scan_items label (pages j) = None)))"
  proof (intro impI allI)
    fix it
    assume sv: "serves_pages srv headers repo label pages" and y: "fst y = Inr (Some it)"
    from gh_serves_pages[OF sv, of page w] obtain r w1 where
      g: "?get = (Inr r, w1)" and js: "json_list r = pages page" by blast
    from body y js have "scan_items label (pages page) = Some it
        \<or> (scan_items label (pages page) = None \<and> f srv headers repo label (page + 1) w1 = Some y)"
      unfolding g by (auto simp: Let_def split: if_splits option.splits)
    then show "\<exists>k pre post. page \<le> k \<and> pages k = pre @ it # post \<and> scan_items label pre = None
           \<and> (\<forall>j. page \<le> j \<and> j < k \<longrightarrow> scan_items label (pages j) = None)"
    proof
      assume "scan_items label (pages page) = Some it"
      from scan_items_Some[OF this] obtain pre post where
        "pages page = pre @ it # post" "scan_items label pre = None" by blast
      then show ?thesis
        by (rule_tac x = page in exI, rule_tac x = pre in exI, rule_tac x = post in exI) auto
    next
      assume a: "scan_items label (pages page) = None \<and> f srv headers repo label (page + 1) w1 = Some y"
      from a have fa: "f srv headers repo label (page + 1) w1 = Some y" by simp
      from IH[OF fa] sv y have "\<exists>k pre post. page + 1 \<le> k \<and> pages k = pre @ it # post
           \<and> scan_items label pre = None
           \<and> (\<forall>j. page + 1 \<le> j \<and> j < k \<longrightarrow> scan_items label (pages j) = None)"
        by simp
      then obtain k pre post where kk: "page + 1 \<le> k \<and> pages k = pre @ it # post
           \<and> scan_items label pre = None
           \<and> (\<forall>j. page + 1 \<le> j \<and> j < k \<longrightarrow> scan_items label (pages j) = None)"
        by blast
      from kk have k: "page + 1 \<le> k" and pk: "pages k = pre @ it # post"
        and pre: "scan_items label pre = None"
        and b: "\<forall>j. page + 1 \<le> j \<and> j < k \<longrightarrow> scan_items label (pages j) = None"
        by simp_all
      have b': "\<forall>j. page \<le> j \<and> j < k \<longrightarrow> scan_items label (pages j) = None"
      proof (intro allI impI)
        fix j assume "page \<le> j \<and> j < k"
        then have "j = page \<or> (page + 1 \<le> j \<and> j < k)" by auto
        then show "scan_items label (pages j) = None"
        proof
          assume "j = page" then show ?thesis using a by simp
        next
          assume "page + 1 \<le> j \<and> j < k" then show ?thesis using b by simp
        qed
      qed
      have "page \<le> k" using k by simp
      then show ?thesis using pk pre b'
        by (rule_tac x = k in exI, rule_tac x = pre in exI, rule_tac x = post in exI) simp
    qed
  qed
qed

lemma paged_serves: "serves_pages (paged pages) headers repo label pages"
  by (simp add: serves_pages_def paged_def page_of_def gh_request_def ok_def)

text \<open>
  Claim C7. An entry that the seed lookup returns is never a pull request and has the exact
  label \<open>seed:<seed id>\<close>; and for every sequence of pages that the tracker serves, the
  entry stands on some page \<open>k\<close> where no entry before it, and no entry of an earlier
  page, is an issue with that label: it is the first one. A pull request that carries the
  label is passed over.
\<close>

theorem seed_lookup_skips_pull_requests:
  fixes srv :: "'w server" and it :: issue
  assumes "find_issue_by_seed srv headers repo seed_uid w = Some (Inr (Some it), w')"
  shows "\<not> pull_request it \<and> (''seed:'' @ seed_uid) \<in> set (labels it)
     \<and> (\<forall>pages. serves_pages srv headers repo (''seed:'' @ seed_uid) pages \<longrightarrow>
          (\<exists>k pre post. 1 \<le> k \<and> pages k = pre @ it # post
             \<and> (\<forall>x\<in>set pre. pull_request x \<or> (''seed:'' @ seed_uid) \<notin> set (labels x))
             \<and> (\<forall>j. 1 \<le> j \<and> j < k \<longrightarrow>
                    (\<forall>x\<in>set (pages j). pull_request x \<or> (''seed:'' @ seed_uid) \<notin> set (labels x)))))"
proof -
  let ?label = "''seed:'' @ seed_uid"
  from assms have f: "find_pages srv headers repo ?label 1 w = Some (Inr (Some it), w')"
    by (simp add: find_issue_by_seed_def)
  from find_pages_result[OF f] have 1: "\<not> pull_request it \<and> ?label \<in> set (labels it)" by simp
  have 2: "\<exists>k pre post. 1 \<le> k \<and> pages k = pre @ it # post
             \<and> (\<forall>x\<in>set pre. pull_request x \<or> ?label \<notin> set (labels x))
             \<and> (\<forall>j. 1 \<le> j \<and> j < k \<longrightarrow>
                    (\<forall>x\<in>set (pages j). pull_request x \<or> ?label \<notin> set (labels x)))"
    if sv: "serves_pages srv headers repo ?label pages" for pages
  proof -
    from find_pages_first[OF f, of pages] sv have "\<exists>k pre post. 1 \<le> k
         \<and> pages k = pre @ it # post \<and> scan_items ?label pre = None
         \<and> (\<forall>j. 1 \<le> j \<and> j < k \<longrightarrow> scan_items ?label (pages j) = None)"
      by simp
    then obtain k pre post where "1 \<le> k
         \<and> pages k = pre @ it # post \<and> scan_items ?label pre = None
         \<and> (\<forall>j. 1 \<le> j \<and> j < k \<longrightarrow> scan_items ?label (pages j) = None)"
      by blast
    then show ?thesis
      by (rule_tac x = k in exI, rule_tac x = pre in exI, rule_tac x = post in exI)
         (simp add: scan_items_None)
  qed
  from 1 2 show ?thesis by blast
qed

theorem seed_lookup_skips_pull_requests_witness:
  "fst (the (find_issue_by_seed (paged two_pages) [] ''o/r'' ''W1-01''
               \<lparr>tracker = (), trace = []\<rparr>)) = Inr (Some existing_issue)
   \<and> \<not> pull_request existing_issue
   \<and> ''seed:W1-01'' \<in> set (labels existing_issue)
   \<and> two_pages 2 = [pull_request_entry, existing_issue]
   \<and> pull_request pull_request_entry
   \<and> ''seed:W1-01'' \<in> set (labels pull_request_entry)
   \<and> (\<exists>k pre post. 1 \<le> k \<and> two_pages k = pre @ existing_issue # post
          \<and> (\<forall>x\<in>set pre. pull_request x \<or> ''seed:W1-01'' \<notin> set (labels x)))"
proof -
  let ?w = "\<lparr>tracker = (), trace = []\<rparr> :: unit world"
  let ?w' = "snd (the (find_issue_by_seed (paged two_pages) [] ''o/r'' ''W1-01'' ?w))"
  have e: "find_issue_by_seed (paged two_pages) [] ''o/r'' ''W1-01'' ?w \<noteq> None
      \<and> fst (the (find_issue_by_seed (paged two_pages) [] ''o/r'' ''W1-01'' ?w))
          = Inr (Some existing_issue)"
    by code_simp
  then have f: "find_issue_by_seed (paged two_pages) [] ''o/r'' ''W1-01'' ?w
      = Some (Inr (Some existing_issue), ?w')"
    by (auto simp: prod_eq_iff)
  have p: "two_pages 2 = [pull_request_entry, existing_issue]
     \<and> pull_request pull_request_entry \<and> ''seed:W1-01'' \<in> set (labels pull_request_entry)"
    by (simp add: two_pages_def pull_request_entry_def)
  have sv: "serves_pages (paged two_pages) [] ''o/r'' (''seed:'' @ ''W1-01'') two_pages"
    by (rule paged_serves)
  from seed_lookup_skips_pull_requests[OF f] have
    1: "\<not> pull_request existing_issue \<and> ''seed:W1-01'' \<in> set (labels existing_issue)"
    and 2: "\<forall>pages. serves_pages (paged two_pages) [] ''o/r'' (''seed:'' @ ''W1-01'') pages \<longrightarrow>
          (\<exists>k pre post. 1 \<le> k \<and> pages k = pre @ existing_issue # post
             \<and> (\<forall>x\<in>set pre. pull_request x \<or> (''seed:'' @ ''W1-01'') \<notin> set (labels x))
             \<and> (\<forall>j. 1 \<le> j \<and> j < k \<longrightarrow>
                    (\<forall>x\<in>set (pages j). pull_request x \<or> (''seed:'' @ ''W1-01'') \<notin> set (labels x))))"
    by simp_all
  from 2 sv have "\<exists>k pre post. 1 \<le> k \<and> two_pages k = pre @ existing_issue # post
             \<and> (\<forall>x\<in>set pre. pull_request x \<or> (''seed:'' @ ''W1-01'') \<notin> set (labels x))
             \<and> (\<forall>j. 1 \<le> j \<and> j < k \<longrightarrow>
                    (\<forall>x\<in>set (two_pages j). pull_request x \<or> (''seed:'' @ ''W1-01'') \<notin> set (labels x)))"
    by (elim allE[of _ two_pages] impE)
  then have 3: "\<exists>k pre post. 1 \<le> k \<and> two_pages k = pre @ existing_issue # post
          \<and> (\<forall>x\<in>set pre. pull_request x \<or> ''seed:W1-01'' \<notin> set (labels x))"
    by (elim exE conjE, rule_tac x = k in exI, rule_tac x = pre in exI, rule_tac x = post in exI)
       simp
  from e 1 p 3 show ?thesis by simp
qed

text \<open>
  Claim C8. When the tracker serves a sequence of pages of which page \<open>k\<close> has fewer than 50
  entries (none, perhaps), the seed lookup returns, after \<open>n \<le> k\<close> requests, one per page:
  the pages before \<open>n\<close> were full and without a match, and the result is the first match of
  page \<open>n\<close>, or not-found, and then page \<open>n\<close> is a short or empty one.
\<close>

theorem seed_lookup_terminates:
  fixes srv :: "'w server"
  assumes "serves_pages srv headers repo (''seed:'' @ seed_uid) pages"
    and "1 \<le> k" and "length (pages k) < 50"
  shows "\<exists>n res w'. 1 \<le> n \<and> n \<le> k
       \<and> find_issue_by_seed srv headers repo seed_uid w = Some (Inr res, w')
       \<and> length (trace w') = length (trace w) + n
       \<and> (\<forall>j. 1 \<le> j \<and> j < n \<longrightarrow>
             scan_items (''seed:'' @ seed_uid) (pages j) = None \<and> 50 \<le> length (pages j))
       \<and> res = scan_items (''seed:'' @ seed_uid) (pages n)
       \<and> (res = None \<longrightarrow> length (pages n) < 50)"
  using find_pages_terminates[OF assms(1), of k 1 w] assms(2,3)
  by (simp add: find_issue_by_seed_def per_page_def)


theorem seed_lookup_terminates_witness:
  "\<exists>w'. find_issue_by_seed (paged two_pages) [] ''o/r'' ''W1-01'' \<lparr>tracker = (), trace = []\<rparr>
          = Some (Inr (Some existing_issue), w')
        \<and> length (trace w') = 2"
proof -
  let ?w = "\<lparr>tracker = (), trace = []\<rparr> :: unit world"
  have short: "length (two_pages 2) < 50" by (simp add: two_pages_def)
  have p1: "scan_items ''seed:W1-01'' (two_pages 1) = None"
    by (simp add: two_pages_def scan_items_None pull_request_entry_def)
  have l1: "length (two_pages 1) = 50" by (simp add: two_pages_def)
  have p2: "scan_items ''seed:W1-01'' (two_pages 2) = Some existing_issue"
    by (simp add: two_pages_def pull_request_entry_def existing_issue_def)
  have sv: "serves_pages (paged two_pages) [] ''o/r'' (''seed:'' @ ''W1-01'') two_pages"
    by (rule paged_serves)
  have k: "(1::nat) \<le> 2" by simp
  from seed_lookup_terminates[OF sv k short, of ?w]
  obtain n res w' where c: "1 \<le> n \<and> n \<le> 2
       \<and> find_issue_by_seed (paged two_pages) [] ''o/r'' ''W1-01'' ?w = Some (Inr res, w')
       \<and> length (trace w') = length (trace ?w) + n
       \<and> (\<forall>j. 1 \<le> j \<and> j < n \<longrightarrow>
             scan_items (''seed:'' @ ''W1-01'') (two_pages j) = None \<and> 50 \<le> length (two_pages j))
       \<and> res = scan_items (''seed:'' @ ''W1-01'') (two_pages n)
       \<and> (res = None \<longrightarrow> length (two_pages n) < 50)"
    by (elim exE) (erule that)
  from c have n: "1 \<le> n \<and> n \<le> 2"
    and f: "find_issue_by_seed (paged two_pages) [] ''o/r'' ''W1-01'' ?w = Some (Inr res, w')"
    and l: "length (trace w') = length (trace ?w) + n"
    and r: "res = scan_items ''seed:W1-01'' (two_pages n)"
           "res = None \<longrightarrow> length (two_pages n) < 50"
    by simp_all
  have "n = 2"
  proof (rule ccontr)
    assume "n \<noteq> 2"
    with n have "n = 1" by simp
    with r p1 l1 show False by simp
  qed
  with f l r p2 show ?thesis by simp
qed

subsection \<open>A seed id that the tracker already has\<close>

text \<open>
  For a row with a seed id and a title, once its labels are ensured and the seed lookup
  returns an issue (with its URL), the record of the row has status \<open>exists\<close>, that URL and
  the seed label as reason, and the calls that create an issue are those made before the
  row: none was made for it, dry run or not.
\<close>

lemma found_issue_is_reported:
  fixes srv :: "'w server" and existing :: issue
  assumes "seed_uid = strip (str_or_empty (row ''Issue UID''))" and "seed_uid \<noteq> []"
    and "titulo = strip (str_or_empty (row ''Tarefa''))" and "titulo \<noteq> []"
    and ens: "ensure_dyn srv headers repo (dyn_labels row seed_uid) w = (Inr (), w1)"
    and fnd: "find_issue_by_seed srv headers repo seed_uid w1 = Some (Inr (Some existing), w2)"
    and url: "html_url existing = Some u"
  shows "process_row srv headers repo dry_run idx row w =
           Some (Inr \<lparr>status = ''exists'', row_number = idx + 1, task = titulo, issue_url = u,
                      row_reason = ''seed:'' @ seed_uid, row_error = []\<rparr>, w2)
         \<and> create_calls w2 = create_calls w"
proof -
  have "create_calls w1 = create_calls w" using create_calls_ensure_dyn[OF ens] .
  moreover have "create_calls w2 = create_calls w1"
    using create_calls_find_pages[OF fnd[unfolded find_issue_by_seed_def]] by simp
  moreover have "process_row srv headers repo dry_run idx row w =
           Some (Inr \<lparr>status = ''exists'', row_number = idx + 1, task = titulo, issue_url = u,
                      row_reason = ''seed:'' @ seed_uid, row_error = []\<rparr>, w2)"
    using assms by (simp add: process_row_def report_def Let_def)
  ultimately show ?thesis by simp
qed

text \<open>
  On the tracker that keeps what is created, the scenario of the specification holds: the
  first run over the row W1-01 creates the issue, the second run finds it and creates nothing.
\<close>

lemma rerun_finds_the_issue:
  "let w1 = snd (the (main (github_server ''o/r'') plain_pandas run_env one_task_sheet False
                        empty_tracker));
       w2 = snd (the (main (github_server ''o/r'') plain_pandas run_env one_task_sheet False
                        (next_run w1)))
   in reports_written (trace w1) =
        [[\<lparr>status = ''created'', row_number = 1, task = ''Setup repo'',
           issue_url = ''https://github.com/o/r/issues/1'', row_reason = ''seed:W1-01'',
           row_error = []\<rparr>]]
    \<and> reports_written (trace w2) =
        [[\<lparr>status = ''exists'', row_number = 1, task = ''Setup repo'',
           issue_url = ''https://github.com/o/r/issues/1'', row_reason = ''seed:W1-01'',
           row_error = []\<rparr>]]
    \<and> create_calls w2 = []
    \<and> map labels (gh_issues (tracker w2)) = [[''Semana:1'', ''seed:W1-01'']]"
  by code_simp

text \<open>
  Claim C1 does not hold of the code: that a seed id which a run has created is found by
  the next run rests on the seed label of the created issue, and for a seed id that ends in
  a colon the payload leaves this label out, with the names of empty value. Here the seed id
  is "W1-01:": no label is ensured for it, the first run creates the issue with the label
  "Semana:1" alone, the second run looks the label "seed:W1-01:" up, finds nothing and
  creates a second issue.
\<close>

theorem rerun_creates_second_issue:
  "let w1 = snd (the (main (github_server ''o/r'') plain_pandas run_env colon_sheet False
                        empty_tracker));
       w2 = snd (the (main (github_server ''o/r'') plain_pandas run_env colon_sheet False
                        (next_run w1)))
   in map (map status) (reports_written (trace w1)) = [[''created'']]
    \<and> map (map status) (reports_written (trace w2)) = [[''created'']]
    \<and> map (\<lambda>rq. (rq_method rq, rq_url rq)) (requests_of (trace w2)) =
        [(''GET'', ''https://api.github.com/repos/o/r/labels/Tipo:feature''),
         (''GET'', ''https://api.github.com/repos/o/r/labels/Tipo:bug''),
         (''GET'', ''https://api.github.com/repos/o/r/labels/Semana:1''),
         (''GET'', ''https://api.github.com/repos/o/r/issues''),
         (''POST'', ''https://api.github.com/repos/o/r/issues'')]
    \<and> map labels (gh_issues (tracker w2)) = [[''Semana:1''], [''Semana:1'']]"
  by code_simp

subsection \<open>The trace only grows\<close>

lemma prefix_request:
  "requests_request srv rq w = (res, w') \<Longrightarrow> prefix (trace w) (trace w')"
  by (auto simp: requests_request_def split: prod.splits)

lemma prefix_gh:
  assumes "gh srv headers meth path kw w = (res, w')"
  shows "prefix (trace w) (trace w')"
proof -
  let ?rq = "gh_request headers meth path kw"
  obtain r1 w1 where 1: "requests_request srv ?rq w = (r1, w1)" by fastforce
  obtain r2 w2 where 2: "requests_request srv ?rq (sleep 5000 w1) = (r2, w2)" by fastforce
  have e1: "prefix (trace w) (trace w1)" using prefix_request[OF 1] .
  have "prefix (trace (sleep 5000 w1)) (trace w2)" using prefix_request[OF 2] .
  then have e2: "prefix (trace w) (trace w2)"
    using e1 by (auto simp: sleep_def prefix_def)
  from assms have "w' = w1 \<or> w' = w2"
    unfolding gh_def Let_def 1 by (auto simp: 2 split: sum.splits if_splits)
  then show ?thesis using e1 e2 by auto
qed

lemma prefix_ensure_label:
  assumes "ensure_label srv headers repo name color desc w = (res, w')"
  shows "prefix (trace w) (trace w')"
proof -
  let ?get = "gh srv headers ''GET'' (label_path repo name) NoKwargs w"
  obtain r1 w1 where 1: "?get = (r1, w1)" by fastforce
  let ?post = "gh srv headers ''POST'' (labels_path repo) (label_payload name color desc) w1"
  obtain r2 w2 where 2: "?post = (r2, w2)" by fastforce
  have e1: "prefix (trace w) (trace w1)" using prefix_gh[OF 1] .
  have e2: "prefix (trace w) (trace w2)"
    using prefix_gh[OF 2] e1 by (rule_tac prefix_order.trans)
  from assms have "w' = w1 \<or> w' = w2"
    unfolding ensure_label_def 1 by (auto simp: 2 split: sum.splits exn.splits if_splits)
  then show ?thesis using e1 e2 by auto
qed

lemma prefix_ensure_dyn:
  "ensure_dyn srv headers repo dyn w = (res, w') \<Longrightarrow> prefix (trace w) (trace w')"
proof (induction dyn arbitrary: w)
  case Nil
  then show ?case by simp
next
  case (Cons a dyn)
  obtain name color where a: "a = (name, color)" by (cases a)
  obtain r1 w1 where 1: "ensure_label srv headers repo name color None w = (r1, w1)"
    by fastforce
  have e1: "prefix (trace w) (trace w1)" using prefix_ensure_label[OF 1] .
  show ?case
  proof (cases "skipped_name name")
    case True
    then show ?thesis using Cons a by simp
  next
    case False
    from Cons.prems a False 1 have "w' = w1 \<or> ensure_dyn srv headers repo dyn w1 = (res, w')"
      by (auto split: sum.splits)
    then show ?thesis using e1 Cons.IH[of w1] by (auto intro: prefix_order.trans)
  qed
qed

lemma prefix_ensure_base:
  "ensure_base srv headers repo ls w = (res, w') \<Longrightarrow> prefix (trace w) (trace w')"
proof (induction ls arbitrary: w)
  case Nil
  then show ?case by simp
next
  case (Cons a ls)
  obtain name color desc where a: "a = (name, color, desc)" by (cases a)
  obtain r1 w1 where 1: "ensure_label srv headers repo name color (Some desc) w = (r1, w1)"
    by fastforce
  have e1: "prefix (trace w) (trace w1)" using prefix_ensure_label[OF 1] .
  from Cons.prems a 1 have "w' = w1 \<or> ensure_base srv headers repo ls w1 = (res, w')"
    by (auto split: sum.splits)
  then show ?case using e1 Cons.IH[of w1] by (auto intro: prefix_order.trans)
qed

lemma prefix_find_pages:
  fixes srv :: "'w server"
  assumes "find_pages srv headers repo label page w = Some y"
  shows "prefix (trace w) (trace (snd y))"
proof (rule find_pages.raw_induct
    [where P = "\<lambda>srv headers repo label page w y. prefix (trace w) (trace (snd y))",
     OF _ assms])
  fix f :: "'w server \<Rightarrow> (string \<times> string) list \<Rightarrow> string \<Rightarrow> string \<Rightarrow> nat \<Rightarrow> 'w world
     \<Rightarrow> ((exn + issue option) \<times> 'w world) option"
  fix srv :: "'w server" and headers repo label page and w :: "'w world" and y
  assume IH: "\<And>srv headers repo label page w y.
     f srv headers repo label page w = Some y \<Longrightarrow> prefix (trace w) (trace (snd y))"
  let ?get = "gh srv headers ''GET'' (issues_path repo) (Params ''all'' label per_page page) w"
  assume body: "(case ?get of
        (Inl e, w1) \<Rightarrow> Some (Inl e, w1)
      | (Inr r, w1) \<Rightarrow>
          (let items = json_list r in
           if items = [] then Some (Inr None, w1)
           else case scan_items label items of
                  None \<Rightarrow>
                    if length items < per_page then Some (Inr None, w1)
                    else f srv headers repo label (page + 1) w1
                | Some it \<Rightarrow> Some (Inr (Some it), w1))) = Some y"
  obtain r1 w1 where g: "?get = (r1, w1)" by fastforce
  have e1: "prefix (trace w) (trace w1)" using prefix_gh[OF g] .
  from body have "snd y = w1 \<or> f srv headers repo label (page + 1) w1 = Some y"
    unfolding g by (auto simp: Let_def split: sum.splits if_splits option.splits)
  then show "prefix (trace w) (trace (snd y))"
    using e1 IH[of srv headers repo label "page + 1" w1 y] by (auto intro: prefix_order.trans)
qed

text \<open>What a row does to the world, whatever its outcome.\<close>

lemma process_row_cases:
  fixes srv :: "'w server"
  assumes "process_row srv headers repo dry_run idx row w = Some (res, w')"
  shows "w' = w
     \<or> (\<exists>r1 w1. ensure_dyn srv headers repo (dyn_labels row (strip (str_or_empty (row ''Issue UID'')))) w = (r1, w1)
          \<and> (w' = w1
              \<or> (\<exists>r2 w2. find_issue_by_seed srv headers repo (strip (str_or_empty (row ''Issue UID''))) w1 = Some (r2, w2)
                   \<and> (w' = w2
                       \<or> (\<not> dry_run \<and>
                            (\<exists>r3 w3 payload. gh srv headers ''POST'' (issues_path repo) payload w2 = (r3, w3)
                               \<and> (w' = w3 \<or> w' = sleep 300 w3)))))))"
  using assms unfolding process_row_def Let_def
  by (auto split: if_splits prod.splits sum.splits option.splits)


lemma prefix_process_row:
  fixes srv :: "'w server"
  assumes "process_row srv headers repo dry_run idx row w = Some (res, w')"
  shows "prefix (trace w) (trace w')"
proof -
  let ?uid = "strip (str_or_empty (row ''Issue UID''))"
  from process_row_cases[OF assms] show ?thesis
  proof (elim disjE exE conjE)
    assume "w' = w" then show ?thesis by simp
  next
    fix r1 w1 assume "ensure_dyn srv headers repo (dyn_labels row ?uid) w = (r1, w1)" "w' = w1"
    then show ?thesis using prefix_ensure_dyn by blast
  next
    fix r1 w1 r2 w2
    assume "ensure_dyn srv headers repo (dyn_labels row ?uid) w = (r1, w1)"
      "find_issue_by_seed srv headers repo ?uid w1 = Some (r2, w2)" "w' = w2"
    then have "prefix (trace w) (trace w1)" "prefix (trace w1) (trace w2)" "w' = w2"
      using prefix_ensure_dyn[of srv headers repo _ w r1 w1]
        prefix_find_pages[of srv headers repo "''seed:'' @ ?uid" 1 w1 "(r2, w2)"]
      by (simp_all add: find_issue_by_seed_def)
    then show ?thesis by (meson prefix_order.trans)
  next
    fix r1 w1 r2 w2 r3 w3 payload
    assume a: "ensure_dyn srv headers repo (dyn_labels row ?uid) w = (r1, w1)"
      "find_issue_by_seed srv headers repo ?uid w1 = Some (r2, w2)"
      "gh srv headers ''POST'' (issues_path repo) payload w2 = (r3, w3)"
    have 1: "prefix (trace w) (trace w1)" using a(1) by (rule prefix_ensure_dyn)
    have 2: "prefix (trace w1) (trace w2)"
      using prefix_find_pages[of srv headers repo "''seed:'' @ ?uid" 1 w1 "(r2, w2)"] a(2)
      by (simp add: find_issue_by_seed_def)
    have 3: "prefix (trace w2) (trace w3)" using a(3) by (rule prefix_gh)
    have 4: "prefix (trace w) (trace w3)" using 1 2 3 by (meson prefix_order.trans)
    {
      assume "w' = w3" then show ?thesis using 4 by simp
    next
      assume "w' = sleep 300 w3"
      then show ?thesis using 4 by (auto simp: sleep_def prefix_def)
    }
  qed
qed

lemma create_calls_dry_row:
  fixes srv :: "'w server"
  assumes "process_row srv headers repo True idx row w = Some (res, w')"
  shows "create_calls w' = create_calls w"
proof -
  let ?uid = "strip (str_or_empty (row ''Issue UID''))"
  from process_row_cases[OF assms] show ?thesis
  proof (elim disjE exE conjE)
    assume "w' = w" then show ?thesis by simp
  next
    fix r1 w1 assume "ensure_dyn srv headers repo (dyn_labels row ?uid) w = (r1, w1)" "w' = w1"
    then show ?thesis using create_calls_ensure_dyn by blast
  next
    fix r1 w1 r2 w2
    assume "ensure_dyn srv headers repo (dyn_labels row ?uid) w = (r1, w1)"
      "find_issue_by_seed srv headers repo ?uid w1 = Some (r2, w2)" "w' = w2"
    then show ?thesis
      using create_calls_ensure_dyn[of srv headers repo _ w r1 w1]
        create_calls_find_pages[of srv headers repo "''seed:'' @ ?uid" 1 w1 "(r2, w2)"]
      by (simp add: find_issue_by_seed_def)
  next
    assume "\<not> True" then show ?thesis by simp
  next
    assume "\<not> True" then show ?thesis by simp
  qed
qed

lemma prefix_run_rows:
  fixes srv :: "'w server"
  shows "run_rows srv headers repo dry_run idx rows acc w = Some (res, w') \<Longrightarrow>
         prefix (trace w) (trace w')"
proof (induction rows arbitrary: idx acc w)
  case Nil
  then show ?case by simp
next
  case (Cons row rows)
  from Cons.prems obtain r1 w1 where
    1: "process_row srv headers repo dry_run idx row w = Some (r1, w1)"
    by (auto split: option.splits)
  have e1: "prefix (trace w) (trace w1)" using prefix_process_row[OF 1] .
  from Cons.prems 1 have "w' = w1
      \<or> (\<exists>rec. run_rows srv headers repo dry_run (idx + 1) rows (acc @ [rec]) w1 = Some (res, w'))"
    by (auto split: sum.splits)
  then show ?case using e1 Cons.IH by (auto intro: prefix_order.trans)
qed

lemma create_calls_dry_rows:
  fixes srv :: "'w server"
  shows "run_rows srv headers repo True idx rows acc w = Some (res, w') \<Longrightarrow>
         create_calls w' = create_calls w"
proof (induction rows arbitrary: idx acc w)
  case Nil
  then show ?case by simp
next
  case (Cons row rows)
  from Cons.prems obtain r1 w1 where
    1: "process_row srv headers repo True idx row w = Some (r1, w1)"
    by (auto split: option.splits)
  have e1: "create_calls w1 = create_calls w" using create_calls_dry_row[OF 1] .
  from Cons.prems 1 have "w' = w1
      \<or> (\<exists>rec. run_rows srv headers repo True (idx + 1) rows (acc @ [rec]) w1 = Some (res, w'))"
    by (auto split: sum.splits)
  then show ?case using e1 Cons.IH by auto
qed

lemma run_rows_length:
  fixes srv :: "'w server"
  shows "run_rows srv headers repo dry_run idx rows acc w = Some (Inr rep, w') \<Longrightarrow>
         length rep = length acc + length rows"
proof (induction rows arbitrary: idx acc w)
  case Nil
  then show ?case by simp
next
  case (Cons row rows)
  from Cons.prems obtain rec w1 where
    "run_rows srv headers repo dry_run (idx + 1) rows (acc @ [rec]) w1 = Some (Inr rep, w')"
    by (auto split: option.splits sum.splits)
  from Cons.IH[OF this] show ?case by simp
qed

lemma create_calls_ensure_base:
  "ensure_base srv headers repo ls w = (res, w') \<Longrightarrow> create_calls w' = create_calls w"
proof (induction ls arbitrary: w)
  case Nil
  then show ?case by simp
next
  case (Cons a ls)
  obtain name color desc where a: "a = (name, color, desc)" by (cases a)
  obtain r1 w1 where 1: "ensure_label srv headers repo name color (Some desc) w = (r1, w1)"
    by fastforce
  have e1: "create_calls w1 = create_calls w" using create_calls_ensure_label[OF 1] .
  from Cons.prems a 1 have "w' = w1 \<or> ensure_base srv headers repo ls w1 = (res, w')"
    by (auto split: sum.splits)
  then show ?case using e1 Cons.IH[of w1] by auto
qed

text \<open>What the part of \<open>main\<close> after the reading does, by its outcome.\<close>

lemma seed_rows_cases:
  fixes srv :: "'w server"
  assumes "seed_rows srv headers repo dry_run rows w = Some (res, w')"
  shows "\<exists>rb wb. ensure_base srv headers repo base_labels w = (rb, wb)
     \<and> ((\<exists>e. rb = Inl e \<and> res = Raised e \<and> w' = wb)
        \<or> (rb = Inr () \<and>
            (\<exists>rr w2. run_rows srv headers repo dry_run 0 rows [] wb = Some (rr, w2)
               \<and> ((\<exists>e. rr = Inl e \<and> res = Raised e \<and> w' = w2)
                  \<or> (\<exists>rep. rr = Inr rep \<and> res = Returned
                        \<and> w' = w2\<lparr>trace := trace w2 @ [WriteCsv ''seed-report.csv'' csv_header rep]\<rparr>)))))"
  using assms unfolding seed_rows_def
  by (auto split: prod.splits sum.splits option.splits)

lemma report_has_one_record_per_row:
  fixes srv :: "'w server"
  assumes "seed_rows srv headers repo dry_run rows w = Some (Returned, w')"
  shows "\<exists>es rep. trace w' = trace w @ es @ [WriteCsv ''seed-report.csv'' csv_header rep]
           \<and> length rep = length rows"
proof -
  from seed_rows_cases[OF assms] obtain rb wb w2 rep where
    b: "ensure_base srv headers repo base_labels w = (rb, wb)"
    and r: "run_rows srv headers repo dry_run 0 rows [] wb = Some (Inr rep, w2)"
    and w': "w' = w2\<lparr>trace := trace w2 @ [WriteCsv ''seed-report.csv'' csv_header rep]\<rparr>"
    by auto
  have "prefix (trace w) (trace w2)"
    using prefix_ensure_base[OF b] prefix_run_rows[OF r] by (rule prefix_order.trans)
  then obtain es where "trace w2 = trace w @ es" by (auto simp: prefix_def)
  moreover have "length rep = length rows" using run_rows_length[OF r] by simp
  ultimately show ?thesis using w' by auto
qed


lemma gh_first_event:
  fixes srv :: "'w server"
  shows "\<exists>es. trace (snd (gh srv headers meth path kw w)) =
           trace w @ Http (gh_request headers meth path kw)
                          (fst (srv (tracker w) (gh_request headers meth path kw))) # es"
  by (auto simp: gh_def Let_def requests_request_def sleep_def split: prod.splits sum.splits)

lemma ensure_label_first_event:
  fixes srv :: "'w server"
  shows "\<exists>es. trace (snd (ensure_label srv headers repo name color desc w)) =
           trace w @ Http (gh_request headers ''GET'' (label_path repo name) NoKwargs)
                          (fst (srv (tracker w)
                                  (gh_request headers ''GET'' (label_path repo name) NoKwargs))) # es"
proof -
  let ?rq = "gh_request headers ''GET'' (label_path repo name) NoKwargs"
  let ?get = "gh srv headers ''GET'' (label_path repo name) NoKwargs w"
  obtain r1 w1 where 1: "?get = (r1, w1)" by fastforce
  let ?post = "gh srv headers ''POST'' (labels_path repo) (label_payload name color desc) w1"
  obtain r2 w2 where 2: "?post = (r2, w2)" by fastforce
  from gh_first_event[of srv headers "''GET''" "label_path repo name" NoKwargs w] 1
  obtain es where e1: "trace w1 = trace w @ Http ?rq (fst (srv (tracker w) ?rq)) # es" by auto
  from prefix_gh[OF 2] obtain es2 where "trace w2 = trace w1 @ es2" by (auto simp: prefix_def)
  with e1 have e2: "trace w2 = trace w @ Http ?rq (fst (srv (tracker w) ?rq)) # (es @ es2)" by simp
  have "snd (ensure_label srv headers repo name color desc w) = w1
      \<or> snd (ensure_label srv headers repo name color desc w) = w2"
    unfolding ensure_label_def 1 by (auto simp: 2 split: sum.splits exn.splits if_splits)
  then show ?thesis using e1 e2 by auto
qed

lemma ensure_label_absent:
  fixes srv :: "'w server" and r :: response
  assumes "srv (tracker w) (gh_request headers ''GET'' (label_path repo name) NoKwargs) = (Inr r, t1)"
    and "status_code r = 404"
  shows "\<exists>out2 es. trace (snd (ensure_label srv headers repo name color desc w)) =
           trace w @ Http (gh_request headers ''GET'' (label_path repo name) NoKwargs) (Inr r)
                   # Http (gh_request headers ''POST'' (labels_path repo)
                             (label_payload name color desc)) out2 # es"
proof -
  let ?rq = "gh_request headers ''GET'' (label_path repo name) NoKwargs"
  let ?w1 = "w\<lparr>tracker := t1, trace := trace w @ [Http ?rq (Inr r)]\<rparr>"
  have nrl: "\<not> is_rate_limit r" using assms(2) by (simp add: is_rate_limit_def)
  have rs: "raise_for_status r = Inl (HTTPError (http_error_msg r) r)"
    using assms(2) by (simp add: raise_for_status_def)
  have g: "gh srv headers ''GET'' (label_path repo name) NoKwargs w
             = (Inl (HTTPError (http_error_msg r) r), ?w1)"
    by (simp add: gh_def Let_def requests_request_def assms(1) nrl rs)
  let ?post = "gh srv headers ''POST'' (labels_path repo) (label_payload name color desc) ?w1"
  have "snd (ensure_label srv headers repo name color desc w) = snd ?post"
    unfolding ensure_label_def g using assms(2) by (auto split: prod.splits sum.splits)
  moreover from gh_first_event[of srv headers "''POST''" "labels_path repo"
                   "label_payload name color desc" ?w1]
  obtain out2 es where "trace (snd ?post) = trace ?w1
      @ Http (gh_request headers ''POST'' (labels_path repo) (label_payload name color desc)) out2 # es"
    by blast
  ultimately show ?thesis by auto
qed

subsection \<open>The base labels\<close>

text \<open>
  The calls of \<open>ensure_label\<close>, with their URLs: first the existence check of the label, and
  when the tracker answers it with 404, next the POST that creates the label.
\<close>

lemma ensure_label_calls:
  fixes srv :: "'w server"
  shows "\<exists>res w1 out es.
     ensure_label srv headers repo name color desc w = (res, w1)
     \<and> trace w1 = trace w
         @ Http \<lparr>rq_method = ''GET'',
                  rq_url = ''https://api.github.com/repos/'' @ repo @ ''/labels/'' @ name,
                  rq_headers = headers, rq_timeout = 30, rq_kwargs = NoKwargs\<rparr> out # es
     \<and> (\<forall>r t. srv (tracker w)
                  \<lparr>rq_method = ''GET'',
                   rq_url = ''https://api.github.com/repos/'' @ repo @ ''/labels/'' @ name,
                   rq_headers = headers, rq_timeout = 30, rq_kwargs = NoKwargs\<rparr>
                  = (Inr r, t) \<and> status_code r = 404 \<longrightarrow>
            (\<exists>out2 es2. es =
               Http \<lparr>rq_method = ''POST'',
                     rq_url = ''https://api.github.com/repos/'' @ repo @ ''/labels'',
                     rq_headers = headers, rq_timeout = 30,
                     rq_kwargs = label_payload name color desc\<rparr> out2 # es2))"
proof -
  let ?get = "gh_request headers ''GET'' (label_path repo name) NoKwargs"
  let ?post = "gh_request headers ''POST'' (labels_path repo) (label_payload name color desc)"
  have g: "?get = \<lparr>rq_method = ''GET'',
                   rq_url = ''https://api.github.com/repos/'' @ repo @ ''/labels/'' @ name,
                   rq_headers = headers, rq_timeout = 30, rq_kwargs = NoKwargs\<rparr>"
    by (simp add: gh_request_def label_path_def GH_API_def)
  have p: "?post = \<lparr>rq_method = ''POST'',
                     rq_url = ''https://api.github.com/repos/'' @ repo @ ''/labels'',
                     rq_headers = headers, rq_timeout = 30,
                     rq_kwargs = label_payload name color desc\<rparr>"
    by (simp add: gh_request_def labels_path_def GH_API_def)
  obtain res w1 where e: "ensure_label srv headers repo name color desc w = (res, w1)"
    by fastforce
  from ensure_label_first_event[of srv headers repo name color desc w] e
  obtain es where t: "trace w1 = trace w @ Http ?get (fst (srv (tracker w) ?get)) # es"
    by auto
  have post: "\<exists>out2 es2. es = Http ?post out2 # es2"
    if h: "srv (tracker w) ?get = (Inr r, t1) \<and> status_code r = 404"
    for r :: response and t1
  proof -
    from h have h1: "srv (tracker w) ?get = (Inr r, t1)" and h2: "status_code r = 404"
      by simp_all
    from ensure_label_absent
           [where srv = srv and w = w and headers = headers and repo = repo
              and name = name and color = color and desc = desc, OF h1 h2] e
    obtain out2 es2 where
      "trace w1 = trace w @ Http ?get (Inr r) # Http ?post out2 # es2"
      by auto
    with t show ?thesis by auto
  qed
  have "\<exists>res w1 out es.
     ensure_label srv headers repo name color desc w = (res, w1)
     \<and> trace w1 = trace w @ Http ?get out # es
     \<and> (\<forall>r t. srv (tracker w) ?get = (Inr r, t) \<and> status_code r = 404 \<longrightarrow>
            (\<exists>out2 es2. es = Http ?post out2 # es2))"
  proof (intro exI conjI)
    show "ensure_label srv headers repo name color desc w = (res, w1)" by (rule e)
    show "trace w1 = trace w @ Http ?get (fst (srv (tracker w) ?get)) # es" by (rule t)
    show "\<forall>r t. srv (tracker w) ?get = (Inr r, t) \<and> status_code r = 404 \<longrightarrow>
            (\<exists>out2 es2. es = Http ?post out2 # es2)"
      by (intro allI impI) (erule post)
  qed
  then show ?thesis unfolding g p .
qed

text \<open>
  Claim C10. In every run that passes the checks of the start (a token, a repository, a
  sheet with columns), whatever the dry-run flag, the rows and the tracker: \<open>main\<close> first
  ensures "Tipo:feature", with the existence check at \<open>/labels/Tipo:feature\<close> as its first
  call and, when the tracker answers 404, the POST to \<open>/labels\<close> that creates the label as
  the next one; an exception there ends the run. Then it ensures "Tipo:bug" in the same way.
  Only then, from the world these calls have left, does the loop over the rows start. The
  statement gives the value of \<open>main\<close> in each case, also for a run that does not return.
\<close>

theorem base_labels_ensured_before_rows:
  fixes srv :: "'w server"
  assumes "get_token environ = Some token" and "token \<noteq> []"
    and "environ ''GITHUB_REPOSITORY'' = Some repo" and "repo \<noteq> []"
    and "read_frames sheets \<noteq> []"
    and "headers = [(''Authorization'', ''Bearer '' @ token),
                    (''Accept'', ''application/vnd.github+json'')]"
    and "base_labels = [(''Tipo:feature'', ''3BA55D'', d1), (''Tipo:bug'', ''ED4245'', d2)]"
  shows "\<exists>rf wf out1 es1.
      ensure_label srv headers repo ''Tipo:feature'' ''3BA55D'' (Some d1) w = (rf, wf)
    \<and> trace wf = trace w
        @ Http \<lparr>rq_method = ''GET'',
                 rq_url = ''https://api.github.com/repos/'' @ repo @ ''/labels/Tipo:feature'',
                 rq_headers = headers, rq_timeout = 30, rq_kwargs = NoKwargs\<rparr> out1 # es1
    \<and> (\<forall>r t. srv (tracker w)
                 \<lparr>rq_method = ''GET'',
                  rq_url = ''https://api.github.com/repos/'' @ repo @ ''/labels/Tipo:feature'',
                  rq_headers = headers, rq_timeout = 30, rq_kwargs = NoKwargs\<rparr>
                 = (Inr r, t) \<and> status_code r = 404 \<longrightarrow>
           (\<exists>out es. es1 =
              Http \<lparr>rq_method = ''POST'',
                    rq_url = ''https://api.github.com/repos/'' @ repo @ ''/labels'',
                    rq_headers = headers, rq_timeout = 30,
                    rq_kwargs = JsonLabel ''Tipo:feature'' ''3BA55D'' (Some d1)\<rparr> out # es))
    \<and> (\<forall>e. rf = Inl e \<longrightarrow> main srv pd environ sheets dry_run w = Some (Raised e, wf))
    \<and> (rf = Inr () \<longrightarrow>
         (\<exists>rb wb out2 es2.
             ensure_label srv headers repo ''Tipo:bug'' ''ED4245'' (Some d2) wf = (rb, wb)
           \<and> trace wb = trace wf
               @ Http \<lparr>rq_method = ''GET'',
                        rq_url = ''https://api.github.com/repos/'' @ repo @ ''/labels/Tipo:bug'',
                        rq_headers = headers, rq_timeout = 30, rq_kwargs = NoKwargs\<rparr> out2 # es2
           \<and> (\<forall>r t. srv (tracker wf)
                        \<lparr>rq_method = ''GET'',
                         rq_url = ''https://api.github.com/repos/'' @ repo @ ''/labels/Tipo:bug'',
                         rq_headers = headers, rq_timeout = 30, rq_kwargs = NoKwargs\<rparr>
                        = (Inr r, t) \<and> status_code r = 404 \<longrightarrow>
                  (\<exists>out es. es2 =
                     Http \<lparr>rq_method = ''POST'',
                           rq_url = ''https://api.github.com/repos/'' @ repo @ ''/labels'',
                           rq_headers = headers, rq_timeout = 30,
                           rq_kwargs = JsonLabel ''Tipo:bug'' ''ED4245'' (Some d2)\<rparr> out # es))
           \<and> (\<forall>e. rb = Inl e \<longrightarrow> main srv pd environ sheets dry_run w = Some (Raised e, wb))
           \<and> (rb = Inr () \<longrightarrow>
                main srv pd environ sheets dry_run w =
                  (case run_rows srv headers repo dry_run 0 (loop_rows pd (read_frames sheets))
                          [] wb of
                     None \<Rightarrow> None
                   | Some (Inl e, w2) \<Rightarrow> Some (Raised e, w2)
                   | Some (Inr report_rows, w2) \<Rightarrow>
                       Some (Returned,
                             w2\<lparr>trace := trace w2
                                  @ [WriteCsv ''seed-report.csv'' csv_header report_rows]\<rparr>)))))"
proof -
  have d: "d1 \<noteq> []" "d2 \<noteq> []" using assms(7) by (auto simp: base_labels_def)
  have pf: "label_payload ''Tipo:feature'' ''3BA55D'' (Some d1)
              = JsonLabel ''Tipo:feature'' ''3BA55D'' (Some d1)"
    and pb: "label_payload ''Tipo:bug'' ''ED4245'' (Some d2)
              = JsonLabel ''Tipo:bug'' ''ED4245'' (Some d2)"
    using d by (simp_all add: label_payload_def)
  have nf: "''/labels/'' @ ''Tipo:feature'' = ''/labels/Tipo:feature''"
    and nb: "''/labels/'' @ ''Tipo:bug'' = ''/labels/Tipo:bug''"
    by simp_all
  have m: "main srv pd environ sheets dry_run w
             = seed_rows srv headers repo dry_run (loop_rows pd (read_frames sheets)) w"
    using assms(1-6) by (simp add: main_def Let_def)
  from ensure_label_calls[of srv headers repo "''Tipo:feature''" "''3BA55D''" "Some d1" w]
  obtain rf wf out1 es1 where F:
    "ensure_label srv headers repo ''Tipo:feature'' ''3BA55D'' (Some d1) w = (rf, wf)
     \<and> trace wf = trace w
         @ Http \<lparr>rq_method = ''GET'',
                  rq_url = ''https://api.github.com/repos/'' @ repo @ ''/labels/'' @ ''Tipo:feature'',
                  rq_headers = headers, rq_timeout = 30, rq_kwargs = NoKwargs\<rparr> out1 # es1
     \<and> (\<forall>r t. srv (tracker w)
                  \<lparr>rq_method = ''GET'',
                   rq_url = ''https://api.github.com/repos/'' @ repo @ ''/labels/'' @ ''Tipo:feature'',
                   rq_headers = headers, rq_timeout = 30, rq_kwargs = NoKwargs\<rparr>
                  = (Inr r, t) \<and> status_code r = 404 \<longrightarrow>
            (\<exists>out2 es2. es1 =
               Http \<lparr>rq_method = ''POST'',
                     rq_url = ''https://api.github.com/repos/'' @ repo @ ''/labels'',
                     rq_headers = headers, rq_timeout = 30,
                     rq_kwargs = label_payload ''Tipo:feature'' ''3BA55D'' (Some d1)\<rparr> out2 # es2))"
    by (elim exE) (erule that)
  from ensure_label_calls[of srv headers repo "''Tipo:bug''" "''ED4245''" "Some d2" wf]
  obtain rb wb out2 es2 where B:
    "ensure_label srv headers repo ''Tipo:bug'' ''ED4245'' (Some d2) wf = (rb, wb)
     \<and> trace wb = trace wf
         @ Http \<lparr>rq_method = ''GET'',
                  rq_url = ''https://api.github.com/repos/'' @ repo @ ''/labels/'' @ ''Tipo:bug'',
                  rq_headers = headers, rq_timeout = 30, rq_kwargs = NoKwargs\<rparr> out2 # es2
     \<and> (\<forall>r t. srv (tracker wf)
                  \<lparr>rq_method = ''GET'',
                   rq_url = ''https://api.github.com/repos/'' @ repo @ ''/labels/'' @ ''Tipo:bug'',
                   rq_headers = headers, rq_timeout = 30, rq_kwargs = NoKwargs\<rparr>
                  = (Inr r, t) \<and> status_code r = 404 \<longrightarrow>
            (\<exists>out es. es2 =
               Http \<lparr>rq_method = ''POST'',
                     rq_url = ''https://api.github.com/repos/'' @ repo @ ''/labels'',
                     rq_headers = headers, rq_timeout = 30,
                     rq_kwargs = label_payload ''Tipo:bug'' ''ED4245'' (Some d2)\<rparr> out # es))"
    by (elim exE) (erule that)
  note F' = F[unfolded nf pf] and B' = B[unfolded nb pb]
  note f = F'[THEN conjunct1] and b = B'[THEN conjunct1]
  have M1: "\<forall>e. rf = Inl e \<longrightarrow> main srv pd environ sheets dry_run w = Some (Raised e, wf)"
    by (simp add: m seed_rows_def assms(7) f)
  have M2: "\<forall>e. rb = Inl e \<longrightarrow> main srv pd environ sheets dry_run w = Some (Raised e, wb)"
    if "rf = Inr ()"
    using that by (simp add: m seed_rows_def assms(7) f b)
  have M3: "main srv pd environ sheets dry_run w =
                  (case run_rows srv headers repo dry_run 0 (loop_rows pd (read_frames sheets))
                          [] wb of
                     None \<Rightarrow> None
                   | Some (Inl e, w2) \<Rightarrow> Some (Raised e, w2)
                   | Some (Inr report_rows, w2) \<Rightarrow>
                       Some (Returned,
                             w2\<lparr>trace := trace w2
                                  @ [WriteCsv ''seed-report.csv'' csv_header report_rows]\<rparr>))"
    if "rf = Inr ()" "rb = Inr ()"
    using that by (simp add: m seed_rows_def assms(7) f b)
  show ?thesis
    apply (rule exI[of _ rf], rule exI[of _ wf], rule exI[of _ out1], rule exI[of _ es1])
    apply (intro conjI)
        apply (rule f)
       apply (rule F'[THEN conjunct2, THEN conjunct1])
      apply (rule F'[THEN conjunct2, THEN conjunct2])
     apply (rule M1)
    apply (rule impI)
    apply (rule exI[of _ rb], rule exI[of _ wb], rule exI[of _ out2], rule exI[of _ es2])
    apply (intro conjI)
        apply (rule b)
       apply (rule B'[THEN conjunct2, THEN conjunct1])
      apply (rule B'[THEN conjunct2, THEN conjunct2])
     apply (erule M2)
    apply (rule impI)
    apply (rule M3, assumption, assumption)
    done
qed

theorem base_labels_ensured_before_rows_witness:
  "fst (the (main scripted plain_pandas run_env one_task_sheet True
               (start [Inr not_found, Inr ok, Inr not_found, Inr ok]))) = Returned
   \<and> map (\<lambda>rq. (rq_method rq, rq_url rq))
         (requests_of (trace (snd (the (main scripted plain_pandas run_env one_task_sheet True
               (start [Inr not_found, Inr ok, Inr not_found, Inr ok])))))) =
       [(''GET'', ''https://api.github.com/repos/o/r/labels/Tipo:feature''),
        (''POST'', ''https://api.github.com/repos/o/r/labels''),
        (''GET'', ''https://api.github.com/repos/o/r/labels/Tipo:bug''),
        (''POST'', ''https://api.github.com/repos/o/r/labels''),
        (''GET'', ''https://api.github.com/repos/o/r/labels/Semana:1''),
        (''GET'', ''https://api.github.com/repos/o/r/labels/seed:W1-01''),
        (''GET'', ''https://api.github.com/repos/o/r/issues'')]"
proof -
  let ?w = "start [Inr not_found, Inr ok, Inr not_found, Inr ok]"
  let ?d1 = "snd (snd (hd base_labels))"
  let ?d2 = "snd (snd (hd (tl base_labels)))"
  let ?wf = "snd (ensure_label scripted run_headers ''o/r'' ''Tipo:feature'' ''3BA55D''
                    (Some ?d1) ?w)"
  let ?wb = "snd (ensure_label scripted run_headers ''o/r'' ''Tipo:bug'' ''ED4245''
                    (Some ?d2) ?wf)"
  let ?rows = "case run_rows scripted run_headers ''o/r'' True 0
                      (loop_rows plain_pandas (read_frames one_task_sheet)) [] ?wb of
                 None \<Rightarrow> None
               | Some (Inl e, w2) \<Rightarrow> Some (Raised e, w2)
               | Some (Inr report_rows, w2) \<Rightarrow>
                   Some (Returned,
                         w2\<lparr>trace := trace w2
                              @ [WriteCsv ''seed-report.csv'' csv_header report_rows]\<rparr>)"
  have t: "get_token run_env = Some ''t0ken''" by (simp add: get_token_def run_env_def)
  have r: "run_env ''GITHUB_REPOSITORY'' = Some ''o/r''" by (simp add: run_env_def)
  have tn: "''t0ken'' \<noteq> []" and rn: "''o/r'' \<noteq> []" by simp_all
  have f: "read_frames one_task_sheet \<noteq> []"
    by (simp add: one_task_sheet_def task_columns_def)
  have h: "run_headers = [(''Authorization'', ''Bearer '' @ ''t0ken''),
                    (''Accept'', ''application/vnd.github+json'')]"
    by (simp add: run_headers_def)
  have bl: "base_labels = [(''Tipo:feature'', ''3BA55D'', ?d1), (''Tipo:bug'', ''ED4245'', ?d2)]"
    by (simp add: base_labels_def)
  have fe: "fst (ensure_label scripted run_headers ''o/r'' ''Tipo:feature'' ''3BA55D''
                   (Some ?d1) ?w) = Inr ()"
    by code_simp
  have be: "fst (ensure_label scripted run_headers ''o/r'' ''Tipo:bug'' ''ED4245''
                   (Some ?d2) ?wf) = Inr ()"
    by code_simp
  have ev: "fst (the ?rows) = Returned
    \<and> map (\<lambda>rq. (rq_method rq, rq_url rq)) (requests_of (trace (snd (the ?rows)))) =
       [(''GET'', ''https://api.github.com/repos/o/r/labels/Tipo:feature''),
        (''POST'', ''https://api.github.com/repos/o/r/labels''),
        (''GET'', ''https://api.github.com/repos/o/r/labels/Tipo:bug''),
        (''POST'', ''https://api.github.com/repos/o/r/labels''),
        (''GET'', ''https://api.github.com/repos/o/r/labels/Semana:1''),
        (''GET'', ''https://api.github.com/repos/o/r/labels/seed:W1-01''),
        (''GET'', ''https://api.github.com/repos/o/r/issues'')]"
    by code_simp
  from base_labels_ensured_before_rows
         [where srv = scripted and w = ?w and pd = plain_pandas and dry_run = True,
          OF t tn r rn f h bl]
  have "main scripted plain_pandas run_env one_task_sheet True ?w = ?rows"
  proof (elim exE conjE)
    fix rf :: "exn + unit" and wf :: "outcome list world"
    assume 1: "ensure_label scripted run_headers ''o/r'' ''Tipo:feature'' ''3BA55D''
                 (Some ?d1) ?w = (rf, wf)"
      and 2: "rf = Inr () \<longrightarrow>
         (\<exists>rb wb out2 es2.
             ensure_label scripted run_headers ''o/r'' ''Tipo:bug'' ''ED4245'' (Some ?d2) wf
               = (rb, wb)
           \<and> trace wb = trace wf
               @ Http \<lparr>rq_method = ''GET'',
                        rq_url = ''https://api.github.com/repos/'' @ ''o/r'' @ ''/labels/Tipo:bug'',
                        rq_headers = run_headers, rq_timeout = 30, rq_kwargs = NoKwargs\<rparr>
                   out2 # es2
           \<and> (\<forall>r t. scripted (tracker wf)
                        \<lparr>rq_method = ''GET'',
                         rq_url = ''https://api.github.com/repos/'' @ ''o/r'' @ ''/labels/Tipo:bug'',
                         rq_headers = run_headers, rq_timeout = 30, rq_kwargs = NoKwargs\<rparr>
                        = (Inr r, t) \<and> status_code r = 404 \<longrightarrow>
                  (\<exists>out es. es2 =
                     Http \<lparr>rq_method = ''POST'',
                           rq_url = ''https://api.github.com/repos/'' @ ''o/r'' @ ''/labels'',
                           rq_headers = run_headers, rq_timeout = 30,
                           rq_kwargs = JsonLabel ''Tipo:bug'' ''ED4245'' (Some ?d2)\<rparr> out # es))
           \<and> (\<forall>e. rb = Inl e \<longrightarrow>
                  main scripted plain_pandas run_env one_task_sheet True ?w = Some (Raised e, wb))
           \<and> (rb = Inr () \<longrightarrow>
                main scripted plain_pandas run_env one_task_sheet True ?w =
                  (case run_rows scripted run_headers ''o/r'' True 0
                          (loop_rows plain_pandas (read_frames one_task_sheet)) [] wb of
                     None \<Rightarrow> None
                   | Some (Inl e, w2) \<Rightarrow> Some (Raised e, w2)
                   | Some (Inr report_rows, w2) \<Rightarrow>
                       Some (Returned,
                             w2\<lparr>trace := trace w2
                                  @ [WriteCsv ''seed-report.csv'' csv_header report_rows]\<rparr>))))"
    from 1 fe have rf: "rf = Inr ()" and wf: "wf = ?wf" by simp_all
    from 2[rule_format, OF rf] show ?thesis
    proof (elim exE conjE)
      fix rb :: "exn + unit" and wb :: "outcome list world"
      assume 3: "ensure_label scripted run_headers ''o/r'' ''Tipo:bug'' ''ED4245'' (Some ?d2) wf
                   = (rb, wb)"
        and 4: "rb = Inr () \<longrightarrow>
                main scripted plain_pandas run_env one_task_sheet True ?w =
                  (case run_rows scripted run_headers ''o/r'' True 0
                          (loop_rows plain_pandas (read_frames one_task_sheet)) [] wb of
                     None \<Rightarrow> None
                   | Some (Inl e, w2) \<Rightarrow> Some (Raised e, w2)
                   | Some (Inr report_rows, w2) \<Rightarrow>
                       Some (Returned,
                             w2\<lparr>trace := trace w2
                                  @ [WriteCsv ''seed-report.csv'' csv_header report_rows]\<rparr>))"
      from 3 be have rb: "rb = Inr ()" and wb: "wb = ?wb" unfolding wf by simp_all
      from 4[rule_format, OF rb] show ?thesis unfolding wb .
    qed
  qed
  then show ?thesis by (simp only: ev)
qed

subsection \<open>The dry run\<close>

lemma find_pages_first_event:
  fixes srv :: "'w server"
  assumes "find_pages srv headers repo label page w = Some (res, w')"
  shows "\<exists>out es. trace w' = trace w
           @ Http (gh_request headers ''GET'' (issues_path repo)
                     (Params ''all'' label per_page page)) out # es"
proof -
  let ?rq = "gh_request headers ''GET'' (issues_path repo) (Params ''all'' label per_page page)"
  let ?get = "gh srv headers ''GET'' (issues_path repo) (Params ''all'' label per_page page) w"
  obtain r1 w1 where g: "?get = (r1, w1)" by fastforce
  from gh_first_event[of srv headers "''GET''" "issues_path repo"
         "Params ''all'' label per_page page" w] g
  obtain out es where e1: "trace w1 = trace w @ Http ?rq out # es" by auto
  from assms have "w' = w1 \<or> find_pages srv headers repo label (page + 1) w1 = Some (res, w')"
    by (subst (asm) find_pages.simps)
       (auto simp: g Let_def split: sum.splits if_splits option.splits)
  then show ?thesis
  proof
    assume "w' = w1" then show ?thesis using e1 by blast
  next
    assume "find_pages srv headers repo label (page + 1) w1 = Some (res, w')"
    from prefix_find_pages[OF this] obtain es2 where "trace w' = trace w1 @ es2"
      by (auto simp: prefix_def)
    with e1 have "trace w' = trace w @ Http ?rq out # (es @ es2)" by simp
    then show ?thesis by blast
  qed
qed

lemma create_calls_dry_main:
  fixes srv :: "'w server"
  assumes "main srv pd environ sheets True w = Some (res, w')"
  shows "create_calls w' = create_calls w"
proof (cases "\<exists>headers repo rows. seed_rows srv headers repo True rows w = Some (res, w')")
  case False
  with assms have "w' = w"
    by (auto simp: main_def Let_def split: option.splits if_splits prod.splits)
  then show ?thesis by simp
next
  case True
  then obtain headers repo rows where
    sr: "seed_rows srv headers repo True rows w = Some (res, w')" by blast
  from seed_rows_cases[OF sr] show ?thesis
  proof (elim exE conjE disjE)
    fix rb :: "exn + unit" and wb :: "'w world"
    assume b: "ensure_base srv headers repo base_labels w = (rb, wb)" and "w' = wb"
    then show ?thesis using create_calls_ensure_base[OF b] by simp
  next
    fix rb :: "exn + unit" and wb w2 :: "'w world" and rr :: "exn + report_row list"
    assume b: "ensure_base srv headers repo base_labels w = (rb, wb)"
      and r: "run_rows srv headers repo True 0 rows [] wb = Some (rr, w2)" and "w' = w2"
    then show ?thesis
      using create_calls_ensure_base[OF b] create_calls_dry_rows[OF r] by simp
  next
    fix rb :: "exn + unit" and wb w2 :: "'w world" and rr :: "exn + report_row list" and rep
    assume b: "ensure_base srv headers repo base_labels w = (rb, wb)"
      and r: "run_rows srv headers repo True 0 rows [] wb = Some (rr, w2)"
      and w': "w' = w2\<lparr>trace := trace w2 @ [WriteCsv ''seed-report.csv'' csv_header rep]\<rparr>"
    have "create_calls w2 = create_calls w"
      using create_calls_ensure_base[OF b] create_calls_dry_rows[OF r] by simp
    then show ?thesis using w' by (simp add: create_calls_def is_create_issue_def)
  qed
qed

text \<open>
  What the dry-run flag does guard: no call that creates an issue is made, in a row or in a
  whole run, and a row with a seed id and a title, whose labels were ensured and whose seed
  id the lookup does not find, gets the record with status \<open>dry-run\<close>.
\<close>

lemma dry_run_creates_no_issue:
  fixes srv :: "'w server"
  assumes "seed_uid = strip (str_or_empty (row ''Issue UID''))" and "seed_uid \<noteq> []"
    and "titulo = strip (str_or_empty (row ''Tarefa''))" and "titulo \<noteq> []"
    and ens: "ensure_dyn srv headers repo (dyn_labels row seed_uid) w = (Inr (), w1)"
    and fnd: "find_issue_by_seed srv headers repo seed_uid w1 = Some (Inr None, w2)"
  shows "process_row srv headers repo True idx row w =
           Some (Inr \<lparr>status = ''dry-run'', row_number = idx + 1, task = titulo, issue_url = [],
                      row_reason = [], row_error = []\<rparr>, w2)
     \<and> (\<exists>out es. trace w2 = trace w1
            @ Http (gh_request headers ''GET'' (issues_path repo)
                      (Params ''all'' (''seed:'' @ seed_uid) 50 1)) out # es)
     \<and> create_calls w2 = create_calls w
     \<and> (\<forall>pd environ sheets w0 res w'.
           main srv pd environ sheets True w0 = Some (res, w') \<longrightarrow>
           create_calls w' = create_calls w0)"
proof -
  have 1: "process_row srv headers repo True idx row w =
           Some (Inr \<lparr>status = ''dry-run'', row_number = idx + 1, task = titulo, issue_url = [],
                      row_reason = [], row_error = []\<rparr>, w2)"
    using assms by (simp add: process_row_def report_def Let_def)
  have 2: "\<exists>out es. trace w2 = trace w1
            @ Http (gh_request headers ''GET'' (issues_path repo)
                      (Params ''all'' (''seed:'' @ seed_uid) 50 1)) out # es"
    using find_pages_first_event[OF fnd[unfolded find_issue_by_seed_def]]
    by (simp add: per_page_def)
  have 3: "create_calls w2 = create_calls w"
    using create_calls_dry_row[OF 1] .
  have 4: "\<forall>pd environ sheets w0 res w'.
           main srv pd environ sheets True w0 = Some (res, w') \<longrightarrow>
           create_calls w' = create_calls w0"
    using create_calls_dry_main by blast
  from 1 2 3 4 show ?thesis by simp
qed

text \<open>
  Claim C6 does not hold of the code: a dry run does issue mutating calls for a row. The
  flag is tested only before the call that creates the issue; \<open>ensure_label\<close> does not know
  it, and sends the POST that creates a label the tracker does not have. Here a dry run
  over the row of the scenario starts on a tracker without labels: two POSTs are sent, the
  tracker has two labels after the row, and the row is reported as \<open>dry-run\<close>.
\<close>

theorem dry_run_creates_labels:
  "let r = the (process_row (github_server ''o/r'') [] ''o/r'' True 0 setup_row empty_tracker)
   in fst r = Inr \<lparr>status = ''dry-run'', row_number = 1, task = ''Setup repo'', issue_url = [],
                    row_reason = [], row_error = []\<rparr>
    \<and> map (\<lambda>rq. (rq_method rq, rq_url rq, rq_kwargs rq))
          (requests_of (filter is_mutating (trace (snd r)))) =
        [(''POST'', ''https://api.github.com/repos/o/r/labels'',
          JsonLabel ''Semana:1'' ''7289DA'' None),
         (''POST'', ''https://api.github.com/repos/o/r/labels'',
          JsonLabel ''seed:W1-01'' ''99AAB5'' None)]
    \<and> gh_labels (tracker (snd r)) = [''Semana:1'', ''seed:W1-01'']"
  by code_simp

subsection \<open>An exception outside the \<open>try\<close>\<close>

text \<open>
  What the \<open>try\<close> does cover: an exception of the call that creates the issue becomes the
  record with status \<open>error\<close> and the message of the exception, and the loop goes on.
\<close>

lemma creation_error_is_recorded:
  fixes srv :: "'w server"
  assumes "seed_uid = strip (str_or_empty (row ''Issue UID''))" and "seed_uid \<noteq> []"
    and "titulo = strip (str_or_empty (row ''Tarefa''))" and "titulo \<noteq> []"
    and "ensure_dyn srv headers repo (dyn_labels row seed_uid) w = (Inr (), w1)"
    and "find_issue_by_seed srv headers repo seed_uid w1 = Some (Inr None, w2)"
    and "gh srv headers ''POST'' (issues_path repo)
           (JsonIssue titulo (build_body row) (payload_labels (dyn_labels row seed_uid))) w2
         = (Inl e, w3)"
  shows "process_row srv headers repo False idx row w =
           Some (Inr \<lparr>status = ''error'', row_number = idx + 1, task = titulo, issue_url = [],
                      row_reason = [], row_error = str_exn e\<rparr>, w3)"
  using assms by (simp add: process_row_def report_def Let_def)

text \<open>
  Claim C2 does not hold of the code: the calls that ensure the labels and the lookup stand
  outside the \<open>try\<close>. Here the tracker answers the existence check of the label
  "Semana:1" with 500: the exception leaves \<open>main\<close>, no record is made for the row and no
  report is written.
\<close>

theorem label_error_ends_the_run:
  "fst (the (main scripted plain_pandas run_env one_task_sheet False
               (start [Inr ok, Inr ok, Inr server_error]))) =
     Raised (HTTPError ''500 Server Error: Internal Server Error for url: '' server_error)
   \<and> reports_written (trace (snd (the (main scripted plain_pandas run_env one_task_sheet False
               (start [Inr ok, Inr ok, Inr server_error]))))) = []"
  by code_simp

text \<open>
  Claim C3 does not hold of the code, by the same defect. Here the first row's issue is
  created, then the lookup of the second row times out: the run ends with the exception
  and without a report, for two input rows. (When \<open>main\<close> returns, the report does have
  one record per row: \<open>report_has_one_record_per_row\<close>.)
\<close>

theorem lookup_error_loses_the_report:
  "fst (the (main scripted plain_pandas run_env two_task_sheet False
               (start [Inr ok, Inr ok, Inr ok, Inr ok, Inr ok, Inr ok, Inr ok, Inr ok,
                       Inl ''Read timed out.'']))) =
     Raised (RequestException ''Read timed out.'')
   \<and> length (create_calls (snd (the (main scripted plain_pandas run_env two_task_sheet False
               (start [Inr ok, Inr ok, Inr ok, Inr ok, Inr ok, Inr ok, Inr ok, Inr ok,
                       Inl ''Read timed out.'']))))) = 1
   \<and> reports_written (trace (snd (the (main scripted plain_pandas run_env two_task_sheet False
               (start [Inr ok, Inr ok, Inr ok, Inr ok, Inr ok, Inr ok, Inr ok, Inr ok,
                       Inl ''Read timed out.'']))))) = []"
  by code_simp

subsection \<open>Labels that are not ensured\<close>

text \<open>
  Claim C5 does not hold of the code for a name in ":nan": the loop that ensures the labels
  passes over it, the payload of the issue only leaves out the names that end in ":". Here
  the role cell reads " nan": no existence check is made for "Papel:nan", and the issue is
  created with that label.
\<close>

theorem nan_label_sent_with_the_issue:
  "skipped_name ''Papel:nan''
   \<and> map (\<lambda>rq. (rq_method rq, rq_url rq))
        (requests_of (trace (snd (the (process_row scripted [] ''o/r'' False 0 nan_row (start [])))))) =
       [(''GET'', ''https://api.github.com/repos/o/r/labels/Semana:1''),
        (''GET'', ''https://api.github.com/repos/o/r/labels/seed:W1-01''),
        (''GET'', ''https://api.github.com/repos/o/r/issues''),
        (''POST'', ''https://api.github.com/repos/o/r/issues'')]
   \<and> map (\<lambda>e. case e of Http rq out \<Rightarrow> i_labels (rq_kwargs rq) | _ \<Rightarrow> [])
        (create_calls (snd (the (process_row scripted [] ''o/r'' False 0 nan_row (start []))))) =
       [[''Semana:1'', ''Papel:nan'', ''seed:W1-01'']]"
  by code_simp

end
